theory Spec2Isabelle
  imports Complex_Main
begin

section \<open>Errors and results\<close>

text \<open>
  The exceptions that the forward pass of the notebook's \<open>RNN\<close> class can raise:
  \<open>NameError\<close> (the module-level name \<open>N\<close> is not bound), \<open>TypeError\<close>
  (iteration over a 0-d tensor), \<open>IndexError\<close> (a Python list indexed out of range) and
  \<open>RuntimeError\<close> (every shape failure reported by the tensor library).
  A computation returns \<open>Inl e\<close> when it raises \<open>e\<close> and \<open>Inr v\<close> when it returns \<open>v\<close>.
\<close>

datatype error = NameError | TypeError | IndexError | RuntimeError

abbreviation Error :: "error \<Rightarrow> error + 'a" where
  "Error \<equiv> Inl"

abbreviation Ok :: "'a \<Rightarrow> error + 'a" where
  "Ok \<equiv> Inr"

definition and_then :: "error + 'a \<Rightarrow> ('a \<Rightarrow> error + 'b) \<Rightarrow> error + 'b" where
  "and_then r k = (case r of Inl e \<Rightarrow> Inl e | Inr v \<Rightarrow> k v)"

definition is_error :: "error + 'a \<Rightarrow> bool" where
  "is_error r = (case r of Inl e \<Rightarrow> True | Inr v \<Rightarrow> False)"

section \<open>The tensor library\<close>

text \<open>
  A dense tensor is its shape and its elements in row-major order. Elements are modelled
  as real numbers (the arithmetic of the library is taken as exact). A tensor is
  \<open>valid\<close> when it holds as many elements as its shape says.
\<close>

record tensor =
  shape :: "nat list"
  data :: "real list"

definition valid :: "tensor \<Rightarrow> bool" where
  "valid t = (length (data t) = prod_list (shape t))"

definition numel :: "tensor \<Rightarrow> nat" where
  "numel t = prod_list (shape t)"

text \<open>\<open>torch.zeros(*s)\<close>.\<close>

definition zeros :: "nat list \<Rightarrow> tensor" where
  "zeros s = \<lparr>shape = s, data = replicate (prod_list s) 0\<rparr>"

text \<open>\<open>t.reshape(*s)\<close>: the same elements in the same row-major order under a new shape;
  raises when the element counts differ.\<close>

definition reshape :: "tensor \<Rightarrow> nat list \<Rightarrow> error + tensor" where
  "reshape t s = (if prod_list s = numel t then Ok \<lparr>shape = s, data = data t\<rparr>
                  else Error RuntimeError)"

text \<open>The \<open>i\<close>-th block of \<open>k\<close> consecutive elements.\<close>

definition chunk :: "'a list \<Rightarrow> nat \<Rightarrow> nat \<Rightarrow> 'a list" where
  "chunk d k i = take k (drop (i * k) d)"

text \<open>\<open>t[i]\<close> for a tensor of at least one axis and \<open>i\<close> in range.\<close>

definition row :: "tensor \<Rightarrow> nat \<Rightarrow> tensor" where
  "row t i = \<lparr>shape = tl (shape t), data = chunk (data t) (prod_list (tl (shape t))) i\<rparr>"

text \<open>Python iteration over a tensor (\<open>for r in t\<close>, \<open>zip\<close>, \<open>enumerate\<close>): the slices
  along the first axis, in order; a 0-d tensor cannot be iterated.\<close>

definition iter :: "tensor \<Rightarrow> error + tensor list" where
  "iter t = (case shape t of
               [] \<Rightarrow> Error TypeError
             | n # s \<Rightarrow> Ok (map (row t) [0..<n]))"

text \<open>\<open>torch.stack(ts)\<close>: a new leading axis; raises on an empty list and on tensors of
  different shapes.\<close>

definition stack :: "tensor list \<Rightarrow> error + tensor" where
  "stack ts = (case ts of
                 [] \<Rightarrow> Error RuntimeError
               | t # rest \<Rightarrow>
                   if list_all (\<lambda>u. shape u = shape t) rest
                   then Ok \<lparr>shape = length ts # shape t, data = concat (map data ts)\<rparr>
                   else Error RuntimeError)"

text \<open>\<open>torch.tanh(t)\<close>, elementwise.\<close>

definition tanh_t :: "tensor \<Rightarrow> tensor" where
  "tanh_t t = \<lparr>shape = shape t, data = map tanh (data t)\<rparr>"

text \<open>Broadcasting of two shapes, aligned at the last axis: two sizes agree when they are
  equal or one of them is 1; a missing leading axis counts as size 1.\<close>

fun bcast_rev :: "nat list \<Rightarrow> nat list \<Rightarrow> nat list option" where
  "bcast_rev [] ys = Some ys"
| "bcast_rev (x # xs) [] = Some (x # xs)"
| "bcast_rev (x # xs) (y # ys) =
     (if x = y \<or> y = 1 then map_option ((#) x) (bcast_rev xs ys)
      else if x = 1 then map_option ((#) y) (bcast_rev xs ys)
      else None)"

definition broadcast_shapes :: "nat list \<Rightarrow> nat list \<Rightarrow> nat list option" where
  "broadcast_shapes a b = map_option rev (bcast_rev (rev a) (rev b))"

definition pad_shape :: "nat list \<Rightarrow> nat \<Rightarrow> nat list" where
  "pad_shape s r = replicate (r - length s) 1 @ s"

text \<open>The elements of a tensor of shape \<open>src\<close> expanded to shape \<open>tgt\<close> (of the same rank):
  an axis of size 1 is repeated, any other axis is kept.\<close>

fun expand_data :: "nat list \<Rightarrow> nat list \<Rightarrow> real list \<Rightarrow> real list" where
  "expand_data (a # as) (n # ns) d =
     (if a = n
      then concat (map (\<lambda>i. expand_data as ns (chunk d (prod_list as) i)) [0..<n])
      else concat (replicate n (expand_data as ns d)))"
| "expand_data [] ns d = d"
| "expand_data (a # as) [] d = d"

text \<open>\<open>a + b\<close> on tensors, with broadcasting.\<close>

definition add :: "tensor \<Rightarrow> tensor \<Rightarrow> error + tensor" where
  "add a b =
     (case broadcast_shapes (shape a) (shape b) of
        None \<Rightarrow> Error RuntimeError
      | Some s \<Rightarrow>
          Ok \<lparr>shape = s,
              data = map2 (+) (expand_data (pad_shape (shape a) (length s)) s (data a))
                              (expand_data (pad_shape (shape b) (length s)) s (data b))\<rparr>)"

text \<open>A vector stretched to length \<open>q\<close> when it has a single element.\<close>

definition expand1 :: "nat \<Rightarrow> real list \<Rightarrow> real list" where
  "expand1 q v = (if length v = 1 then replicate q (hd v) else v)"

text \<open>\<open>torch.einsum('ij,j', w, x)\<close>: the matrix-vector product. \<open>w\<close> must have two axes
  and \<open>x\<close> one; the sizes of the summed axis must be equal or one of them 1 (which is
  then broadcast).\<close>

definition einsum_ij_j :: "tensor \<Rightarrow> tensor \<Rightarrow> error + tensor" where
  "einsum_ij_j w x =
     (if length (shape w) = 2 \<and> length (shape x) = 1
      then (let m = shape w ! 0; n = shape w ! 1; p = shape x ! 0 in
            if n = p \<or> n = 1 \<or> p = 1
            then (let q = (if n = 1 then p else n) in
                  Ok \<lparr>shape = [m],
                      data = map (\<lambda>i. sum_list (map2 (*) (expand1 q (chunk (data w) n i))
                                                         (expand1 q (data x))))
                                 [0..<m]\<rparr>)
            else Error RuntimeError)
      else Error RuntimeError)"

text \<open>\<open>torch.einsum('ijk->jik', t)\<close>: the first two axes of a 3-d tensor exchanged.\<close>

definition einsum_ijk_jik :: "tensor \<Rightarrow> error + tensor" where
  "einsum_ijk_jik t =
     (if length (shape t) = 3
      then (let a = shape t ! 0; b = shape t ! 1; c = shape t ! 2 in
            Ok \<lparr>shape = [b, a, c],
                data = concat (map (\<lambda>j. concat (map (\<lambda>i. chunk (data t) c (i * b + j)) [0..<a]))
                                   [0..<b])\<rparr>)
      else Error RuntimeError)"

text \<open>\<open>xs[i]\<close> on a Python list with \<open>i \<ge> 0\<close>.\<close>

definition index :: "'a list \<Rightarrow> nat \<Rightarrow> error + 'a" where
  "index xs i = (if i < length xs then Ok (xs ! i) else Error IndexError)"

section \<open>The RNN class\<close>

text \<open>
  The object built by \<open>RNN.__init__\<close>: the three sizes and four lists of per-layer
  parameters. \<open>rnn_wf\<close> is what the constructor establishes: one entry per layer in each
  list, \<open>w_ih\<close> of shape \<open>(hidden_size, input_size)\<close> for layer 0 and
  \<open>(hidden_size, hidden_size)\<close> above it, \<open>w_hh\<close> of shape \<open>(hidden_size, hidden_size)\<close>,
  both biases of shape \<open>(hidden_size)\<close>.
\<close>

record rnn =
  input_size :: nat
  hidden_size :: nat
  num_layers :: nat
  ws_ih :: "tensor list"
  ws_hh :: "tensor list"
  bs_ih :: "tensor list"
  bs_hh :: "tensor list"

definition layer_input_size :: "rnn \<Rightarrow> nat \<Rightarrow> nat" where
  "layer_input_size m layer = (if layer = 0 then input_size m else hidden_size m)"

definition has_shape :: "tensor \<Rightarrow> nat list \<Rightarrow> bool" where
  "has_shape t s = (shape t = s \<and> valid t)"

definition rnn_wf :: "rnn \<Rightarrow> bool" where
  "rnn_wf m =
     (length (ws_ih m) = num_layers m \<and> length (ws_hh m) = num_layers m \<and>
      length (bs_ih m) = num_layers m \<and> length (bs_hh m) = num_layers m \<and>
      list_all (\<lambda>l. has_shape (ws_ih m ! l) [hidden_size m, layer_input_size m l] \<and>
                    has_shape (ws_hh m ! l) [hidden_size m, hidden_size m] \<and>
                    has_shape (bs_ih m ! l) [hidden_size m] \<and>
                    has_shape (bs_hh m ! l) [hidden_size m])
               [0..<num_layers m])"

text \<open>\<open>tanh_cell\<close>: the two products first, then the three additions from left to right,
  then \<open>tanh\<close>.\<close>

definition tanh_cell ::
  "tensor \<Rightarrow> tensor \<Rightarrow> tensor \<Rightarrow> tensor \<Rightarrow> tensor \<Rightarrow> tensor \<Rightarrow> error + tensor" where
  "tanh_cell x h w_ih w_hh b_ih b_hh =
     and_then (einsum_ij_j w_ih x) (\<lambda>a.
     and_then (einsum_ij_j w_hh h) (\<lambda>b.
     and_then (add a b) (\<lambda>c.
     and_then (add c b_ih) (\<lambda>d.
     and_then (add d b_hh) (\<lambda>e.
     Ok (tanh_t e))))))"

text \<open>The loop of \<open>cum_map\<close>: \<open>h\<close> is overwritten by \<open>f(x, h)\<close> and appended to
  \<open>cum_results\<close> at every step; an exception of \<open>f\<close> leaves the loop.\<close>

fun cum_map_loop ::
  "(tensor \<Rightarrow> tensor \<Rightarrow> error + tensor) \<Rightarrow> tensor list \<Rightarrow> tensor \<Rightarrow> tensor list
     \<Rightarrow> error + (tensor list \<times> tensor)" where
  "cum_map_loop f [] h cum_results = Ok (cum_results, h)"
| "cum_map_loop f (x # xs) h cum_results =
     and_then (f x h) (\<lambda>h'. cum_map_loop f xs h' (cum_results @ [h']))"

definition cum_map ::
  "(tensor \<Rightarrow> tensor \<Rightarrow> error + tensor) \<Rightarrow> tensor \<Rightarrow> tensor \<Rightarrow> error + (tensor \<times> tensor)" where
  "cum_map f xs h =
     and_then (iter xs) (\<lambda>rows.
     and_then (cum_map_loop f rows h []) (\<lambda>(cum_results, h').
     and_then (stack cum_results) (\<lambda>out.
     Ok (out, h'))))"

text \<open>The loop of \<open>layers_forward\<close> over \<open>enumerate(h_inits)\<close>: the four parameter lists
  are indexed by \<open>i_layer\<close>, the cell is bound to them, and the scan of this layer
  replaces \<open>x\<close>.\<close>

type_synonym cell = "tensor \<Rightarrow> tensor \<Rightarrow> tensor \<Rightarrow> tensor \<Rightarrow> tensor \<Rightarrow> tensor \<Rightarrow> error + tensor"

fun layers_loop ::
  "rnn \<Rightarrow> cell \<Rightarrow> nat \<Rightarrow> tensor list \<Rightarrow> tensor \<Rightarrow> tensor list
     \<Rightarrow> error + (tensor \<times> tensor list)" where
  "layers_loop m f i_layer [] x hs_L = Ok (x, hs_L)"
| "layers_loop m f i_layer (h_0 # rest) x hs_L =
     and_then (index (ws_ih m) i_layer) (\<lambda>w_ih.
     and_then (index (ws_hh m) i_layer) (\<lambda>w_hh.
     and_then (index (bs_ih m) i_layer) (\<lambda>b_ih.
     and_then (index (bs_hh m) i_layer) (\<lambda>b_hh.
     and_then (cum_map (\<lambda>x h. f x h w_ih w_hh b_ih b_hh) x h_0) (\<lambda>(x', h_L).
     layers_loop m f (Suc i_layer) rest x' (hs_L @ [h_L]))))))"

definition layers_forward :: "rnn \<Rightarrow> cell \<Rightarrow> tensor \<Rightarrow> tensor \<Rightarrow> error + (tensor \<times> tensor)" where
  "layers_forward m f x h_inits =
     and_then (iter h_inits) (\<lambda>h_0s.
     and_then (layers_loop m f 0 h_0s x []) (\<lambda>(x', hs_L).
     and_then (stack hs_L) (\<lambda>hn.
     Ok (x', hn))))"

definition batch_forward :: "rnn \<Rightarrow> tensor \<Rightarrow> tensor \<Rightarrow> error + (tensor \<times> tensor)" where
  "batch_forward m x h_0 = layers_forward m tanh_cell x h_0"

text \<open>The loop of \<open>__call__\<close> over \<open>zip(x, h_0)\<close>.\<close>

fun batch_loop ::
  "rnn \<Rightarrow> (tensor \<times> tensor) list \<Rightarrow> tensor list \<Rightarrow> tensor list
     \<Rightarrow> error + (tensor list \<times> tensor list)" where
  "batch_loop m [] batch_hs batch_hn = Ok (batch_hs, batch_hn)"
| "batch_loop m ((x_batch, h_0_batch) # rest) batch_hs batch_hn =
     and_then (batch_forward m x_batch h_0_batch) (\<lambda>(hs, hn).
     batch_loop m rest (batch_hs @ [hs]) (batch_hn @ [hn]))"

text \<open>
  \<open>__call__\<close>. \<open>N\<close> is the module-level name \<open>N\<close> as bound when the call is made
  (\<open>None\<close>: not bound); the method reads it both for the default \<open>h_0\<close> and for the
  reshape. \<open>zip\<close> stops at the shorter of its two arguments.
\<close>

definition global_N :: "nat option \<Rightarrow> error + nat" where
  "global_N N = (case N of None \<Rightarrow> Error NameError | Some n \<Rightarrow> Ok n)"

definition forward :: "nat option \<Rightarrow> rnn \<Rightarrow> tensor \<Rightarrow> tensor option \<Rightarrow> error + (tensor \<times> tensor)" where
  "forward N m x h_0 =
     and_then (case h_0 of
                 None \<Rightarrow> and_then (global_N N) (\<lambda>n. Ok (zeros [num_layers m, n, hidden_size m]))
               | Some t \<Rightarrow> Ok t) (\<lambda>h_0.
     and_then (global_N N) (\<lambda>n.
     and_then (reshape h_0 [n, num_layers m, hidden_size m]) (\<lambda>h_0.
     and_then (iter x) (\<lambda>xs.
     and_then (iter h_0) (\<lambda>h_0s.
     and_then (batch_loop m (zip xs h_0s) [] []) (\<lambda>(batch_hs, batch_hn).
     and_then (stack batch_hs) (\<lambda>hs.
     and_then (stack batch_hn) (\<lambda>hn.
     and_then (einsum_ijk_jik hn) (\<lambda>hn'.
     Ok (hs, hn'))))))))))"

text \<open>The cell bound to the parameters of layer \<open>l\<close>: the partial application that
  \<open>layers_forward\<close> passes to \<open>cum_map\<close>.\<close>

definition layer_cell :: "rnn \<Rightarrow> cell \<Rightarrow> nat \<Rightarrow> tensor \<Rightarrow> tensor \<Rightarrow> error + tensor" where
  "layer_cell m f l = (\<lambda>x h. f x h (ws_ih m ! l) (ws_hh m ! l) (bs_ih m ! l) (bs_hh m ! l))"

text \<open>Each of the four parameter lists holds one tensor per layer.\<close>

definition params_per_layer :: "rnn \<Rightarrow> bool" where
  "params_per_layer m =
     (length (ws_ih m) = num_layers m \<and> length (ws_hh m) = num_layers m \<and>
      length (bs_ih m) = num_layers m \<and> length (bs_hh m) = num_layers m)"

text \<open>\<open>t[i:i+1]\<close>: the batch of size 1 that holds row \<open>i\<close> of \<open>t\<close>.\<close>

definition batch_of_one :: "tensor \<Rightarrow> nat \<Rightarrow> tensor" where
  "batch_of_one t i = \<lparr>shape = 1 # tl (shape t), data = data (row t i)\<rparr>"

section \<open>The recurrence as the specification writes it\<close>

text \<open>
  The cell of the specification on plain vectors and matrices (a matrix is the list of its
  rows): \<open>h' = tanh(W_ih x + W_hh h + b_ih + b_hh)\<close>, with the matrix-vector product,
  elementwise addition and elementwise \<open>tanh\<close>. \<open>matrix_of\<close> reads the rows of a
  2-d tensor.
\<close>

definition mat_vec :: "real list list \<Rightarrow> real list \<Rightarrow> real list" where
  "mat_vec W x = map (\<lambda>r. \<Sum>j<length x. r ! j * x ! j) W"

definition vec_add :: "real list \<Rightarrow> real list \<Rightarrow> real list" where
  "vec_add u v = map (\<lambda>i. u ! i + v ! i) [0..<length u]"

definition matrix_of :: "tensor \<Rightarrow> real list list" where
  "matrix_of w = map (chunk (data w) (shape w ! 1)) [0..<shape w ! 0]"

definition tanh_cell_spec ::
  "real list list \<Rightarrow> real list list \<Rightarrow> real list \<Rightarrow> real list \<Rightarrow> real list \<Rightarrow> real list
     \<Rightarrow> real list" where
  "tanh_cell_spec W_ih W_hh b_ih b_hh x h =
     map tanh (vec_add (vec_add (vec_add (mat_vec W_ih x) (mat_vec W_hh h)) b_ih) b_hh)"

section \<open>Concrete inputs\<close>

text \<open>Small tensors on which the results below are evaluated.\<close>

definition W_id2 :: tensor where "W_id2 = \<lparr>shape = [2, 2], data = [1, 0, 0, 1]\<rparr>"
definition W_zero2 :: tensor where "W_zero2 = \<lparr>shape = [2, 2], data = [0, 0, 0, 0]\<rparr>"
definition vec2 :: "real \<Rightarrow> real \<Rightarrow> tensor" where "vec2 a b = \<lparr>shape = [2], data = [a, b]\<rparr>"

definition vec1 :: "real \<Rightarrow> tensor" where "vec1 a = \<lparr>shape = [1], data = [a]\<rparr>"

definition mat11 :: "real \<Rightarrow> tensor" where
  "mat11 a = \<lparr>shape = [1, 1], data = [a]\<rparr>"

text \<open>An RNN of \<open>k\<close> layers on scalars (\<open>input_size = hidden_size = 1\<close>) whose cell is
  \<open>tanh(x + h)\<close> in every layer, and that cell on its own.\<close>

definition scalar_rnn :: "nat \<Rightarrow> rnn" where
  "scalar_rnn k = \<lparr>input_size = 1, hidden_size = 1, num_layers = k,
                   ws_ih = replicate k (mat11 1), ws_hh = replicate k (mat11 1),
                   bs_ih = replicate k (vec1 0), bs_hh = replicate k (vec1 0)\<rparr>"

definition scalar_cell :: "tensor \<Rightarrow> tensor \<Rightarrow> error + tensor" where
  "scalar_cell x h = tanh_cell x h (mat11 1) (mat11 1) (vec1 0) (vec1 0)"

text \<open>An initial state laid out as \<open>(num_layers, N, H_out) = (2, 3, 1)\<close>, and one of shape
  \<open>(1, 2, 2)\<close>.\<close>

definition h_0_layers_first :: tensor where
  "h_0_layers_first = \<lparr>shape = [2, 3, 1], data = [1, 2, 3, 4, 5, 6]\<rparr>"



section \<open>Results, blocks of elements and tensors\<close>

lemma and_then_Ok [simp]: "and_then (Inr v) k = k v"
  by (simp add: and_then_def)

lemma and_then_Error [simp]: "and_then (Inl e) k = Inl e"
  by (simp add: and_then_def)

lemma chunk_concat:
  "i < length xss \<Longrightarrow> \<forall>xs\<in>set xss. length xs = k \<Longrightarrow> chunk (concat xss) k i = xss ! i"
proof (induction xss arbitrary: i)
  case Nil
  then show ?case by simp
next
  case (Cons a xss)
  show ?case
  proof (cases i)
    case 0
    with Cons.prems show ?thesis by (simp add: chunk_def)
  next
    case (Suc j)
    with Cons.prems have "chunk (concat xss) k j = xss ! j"
      by (intro Cons.IH) auto
    with Suc Cons.prems show ?thesis by (simp add: chunk_def)
  qed
qed

lemma length_chunk: "Suc i * k \<le> length d \<Longrightarrow> length (chunk d k i) = k"
  by (simp add: chunk_def)

lemma nth_chunk: "j < k \<Longrightarrow> Suc i * k \<le> length d \<Longrightarrow> chunk d k i ! j = d ! (i * k + j)"
  by (simp add: chunk_def)

lemma concat_chunks: "length d = n * k \<Longrightarrow> concat (map (chunk d k) [0..<n]) = d"
proof (induction n arbitrary: d)
  case 0
  then show ?case by simp
next
  case (Suc n)
  have "concat (map (chunk d k) [0..<Suc n]) = concat (map (chunk d k) [0..<n]) @ chunk d k n"
    by simp
  also have "map (chunk d k) [0..<n] = map (chunk (take (n * k) d) k) [0..<n]"
  proof (rule map_cong[OF refl])
    fix i assume "i \<in> set [0..<n]"
    then have "i < n" by simp
    then have "Suc i * k \<le> n * k" by (metis Suc_leI mult_le_mono1)
    then show "chunk d k i = chunk (take (n * k) d) k i"
      by (simp add: chunk_def take_drop min_def) 
  qed
  also have "concat (map (chunk (take (n * k) d) k) [0..<n]) = take (n * k) d"
    using Suc.prems by (intro Suc.IH) simp
  also have "chunk d k n = drop (n * k) d"
    using Suc.prems by (simp add: chunk_def)
  finally show ?case by simp
qed

lemma has_shape_row: "has_shape t (n # s) \<Longrightarrow> i < n \<Longrightarrow> has_shape (row t i) s"
proof -
  assume a: "has_shape t (n # s)" and b: "i < n"
  from b have "Suc i * prod_list s \<le> n * prod_list s"
    by (metis Suc_leI mult_le_mono1)
  with a show ?thesis
    by (simp add: has_shape_def valid_def row_def length_chunk)
qed

lemma iter_shape: "shape t = n # s \<Longrightarrow> iter t = Ok (map (row t) [0..<n])"
  by (simp add: iter_def)

lemma stack_ok:
  "ts \<noteq> [] \<Longrightarrow> \<forall>u\<in>set ts. shape u = s \<Longrightarrow>
   stack ts = Ok \<lparr>shape = length ts # s, data = concat (map data ts)\<rparr>"
  by (cases ts) (auto simp: stack_def list_all_iff)

lemma stack_empty: "stack [] = Error RuntimeError"
  by (simp add: stack_def)

lemma has_shape_stacked:
  "\<forall>u\<in>set ts. has_shape u s \<Longrightarrow>
   has_shape \<lparr>shape = length ts # s, data = concat (map data ts)\<rparr> (length ts # s)"
proof (induction ts)
  case Nil
  then show ?case by (simp add: has_shape_def valid_def)
next
  case (Cons a ts)
  then show ?case by (simp add: has_shape_def valid_def length_concat)
qed

lemma row_stacked:
  "\<forall>u\<in>set ts. has_shape u s \<Longrightarrow> i < length ts \<Longrightarrow>
   row \<lparr>shape = length ts # s, data = concat (map data ts)\<rparr> i = ts ! i"
proof -
  assume a: "\<forall>u\<in>set ts. has_shape u s" and b: "i < length ts"
  have "chunk (concat (map data ts)) (prod_list s) i = map data ts ! i"
    using a b by (intro chunk_concat) (auto simp: has_shape_def valid_def)
  moreover have "shape (ts ! i) = s"
    using a b by (simp add: has_shape_def)
  ultimately show ?thesis
    using b by (simp add: row_def)
qed

lemma expand1_same: "length v = q \<Longrightarrow> expand1 q v = v"
proof -
  assume "length v = q"
  then show ?thesis
    by (cases v) (auto simp: expand1_def)
qed

lemma sum_list_map2_mult:
  fixes a b :: "real list"
  shows "length a = n \<Longrightarrow> length b = n \<Longrightarrow>
         sum_list (map2 (*) a b) = (\<Sum>j<n. a ! j * b ! j)"
proof -
  assume "length a = n" "length b = n"
  then have "sum_list (map2 (*) a b) = (\<Sum>j = 0..<n. map2 (*) a b ! j)"
    by (simp add: sum_list_sum_nth)
  also have "\<dots> = (\<Sum>j = 0..<n. a ! j * b ! j)"
    using \<open>length a = n\<close> \<open>length b = n\<close> by (intro sum.cong) auto
  finally show ?thesis by (simp add: lessThan_atLeast0)
qed

lemma einsum_ij_j_ok:
  assumes "has_shape w [m, n]" and "has_shape x [n]"
  shows "einsum_ij_j w x =
         Ok \<lparr>shape = [m],
             data = map (\<lambda>i. \<Sum>j<n. data w ! (i * n + j) * data x ! j) [0..<m]\<rparr>"
proof -
  have lw: "length (data w) = m * n" and lx: "length (data x) = n"
    using assms by (simp_all add: has_shape_def valid_def)
  have "map (\<lambda>i. sum_list (map2 (*) (expand1 n (chunk (data w) n i)) (expand1 n (data x)))) [0..<m]
        = map (\<lambda>i. \<Sum>j<n. data w ! (i * n + j) * data x ! j) [0..<m]"
  proof (rule map_cong[OF refl])
    fix i assume "i \<in> set [0..<m]"
    then have "i < m" by simp
    then have le: "Suc i * n \<le> length (data w)"
      unfolding lw by (metis Suc_leI mult_le_mono1)
    then have lc: "length (chunk (data w) n i) = n"
      by (rule length_chunk)
    have "sum_list (map2 (*) (chunk (data w) n i) (data x))
          = (\<Sum>j<n. chunk (data w) n i ! j * data x ! j)"
      using lc lx by (rule sum_list_map2_mult)
    also have "\<dots> = (\<Sum>j<n. data w ! (i * n + j) * data x ! j)"
      using le by (intro sum.cong) (simp_all add: nth_chunk)
    finally show "sum_list (map2 (*) (expand1 n (chunk (data w) n i)) (expand1 n (data x)))
                  = (\<Sum>j<n. data w ! (i * n + j) * data x ! j)"
      using lc lx by (simp add: expand1_same)
  qed
  moreover have "shape w = [m, n]" "shape x = [n]"
    using assms by (simp_all add: has_shape_def)
  ultimately show ?thesis
    by (simp add: einsum_ij_j_def Let_def)
qed

lemma broadcast_same: "broadcast_shapes [m] [m] = Some [m]"
  by (simp add: broadcast_shapes_def)

lemma add_vec_ok:
  assumes "has_shape a [m]" and "has_shape b [m]"
  shows "add a b = Ok \<lparr>shape = [m], data = map2 (+) (data a) (data b)\<rparr>"
proof -
  have e: "expand_data [m] [m] d = d" if "length d = m" for d
  proof -
    have "concat (map (chunk d 1) [0..<m]) = d"
      using that by (intro concat_chunks) simp
    then show ?thesis by simp
  qed
  have "length (data a) = m" "length (data b) = m" "shape a = [m]" "shape b = [m]"
    using assms by (simp_all add: has_shape_def valid_def)
  then show ?thesis
    by (simp add: add_def broadcast_same pad_shape_def e del: expand_data.simps)
qed

section \<open>The cell\<close>

lemma map2_add_upt:
  fixes v :: "real list"
  shows "length v = n \<Longrightarrow> map2 (+) (map f [0..<n]) v = map (\<lambda>i. f i + v ! i) [0..<n]"
  by (rule nth_equalityI) simp_all

lemma has_shape_vec: "has_shape \<lparr>shape = [n], data = map f [0..<n]\<rparr> [n]"
  by (simp add: has_shape_def valid_def)

lemma tanh_cell_value:
  assumes "has_shape w_ih [H, D]" and "has_shape w_hh [H, H]"
    and "has_shape b_ih [H]" and "has_shape b_hh [H]"
    and "has_shape x [D]" and "has_shape h [H]"
  shows "tanh_cell x h w_ih w_hh b_ih b_hh =
         Ok \<lparr>shape = [H],
             data = map (\<lambda>i. tanh ((\<Sum>j<D. data w_ih ! (i * D + j) * data x ! j) +
                                    (\<Sum>j<H. data w_hh ! (i * H + j) * data h ! j) +
                                    data b_ih ! i + data b_hh ! i)) [0..<H]\<rparr>"
proof -
  define p where "p = (\<lambda>i. \<Sum>j<D. data w_ih ! (i * D + j) * data x ! j)"
  define q where "q = (\<lambda>i. \<Sum>j<H. data w_hh ! (i * H + j) * data h ! j)"
  define a where "a = \<lparr>shape = [H], data = map p [0..<H]\<rparr>"
  define b where "b = \<lparr>shape = [H], data = map q [0..<H]\<rparr>"
  define c where "c = \<lparr>shape = [H], data = map (\<lambda>i. p i + q i) [0..<H]\<rparr>"
  define d where "d = \<lparr>shape = [H], data = map (\<lambda>i. p i + q i + data b_ih ! i) [0..<H]\<rparr>"
  define e where
    "e = \<lparr>shape = [H], data = map (\<lambda>i. p i + q i + data b_ih ! i + data b_hh ! i) [0..<H]\<rparr>"
  have sa: "has_shape a [H]" and sb: "has_shape b [H]" and sc: "has_shape c [H]"
    and sd: "has_shape d [H]"
    by (simp_all add: a_def b_def c_def d_def has_shape_vec)
  have lb: "length (data b_ih) = H" "length (data b_hh) = H"
    using assms(3,4) by (simp_all add: has_shape_def valid_def)
  have 1: "einsum_ij_j w_ih x = Ok a"
    unfolding a_def p_def using assms(1,5) by (rule einsum_ij_j_ok)
  have 2: "einsum_ij_j w_hh h = Ok b"
    unfolding b_def q_def using assms(2,6) by (rule einsum_ij_j_ok)
  have 3: "add a b = Ok c"
    using add_vec_ok[OF sa sb] by (simp add: c_def a_def b_def map2_add_upt)
  have 4: "add c b_ih = Ok d"
    using add_vec_ok[OF sc assms(3)] lb by (simp add: c_def d_def map2_add_upt)
  have 5: "add d b_hh = Ok e"
    using add_vec_ok[OF sd assms(4)] lb by (simp add: d_def e_def map2_add_upt)
  have "tanh_cell x h w_ih w_hh b_ih b_hh = Ok (tanh_t e)"
    by (simp add: tanh_cell_def 1 2 3 4 5)
  then show ?thesis
    by (simp add: tanh_t_def e_def p_def q_def o_def)
qed


section \<open>The sequence scan\<close>

lemma map_upt_Suc_shift: "map g [0..<Suc n] = g 0 # map (\<lambda>t. g (Suc t)) [0..<n]"
  by (simp add: upt_conv_Cons map_Suc_upt[symmetric] del: upt_Suc)

lemma cum_map_loop_run:
  "\<forall>t<length rs. f (rs ! t) (hq t) = Ok (hq (Suc t)) \<Longrightarrow>
   cum_map_loop f rs (hq 0) acc
   = Ok (acc @ map (\<lambda>t. hq (Suc t)) [0..<length rs], hq (length rs))"
proof (induction rs arbitrary: hq acc)
  case Nil
  then show ?case by simp
next
  case (Cons r rs)
  from Cons.prems have first: "f r (hq 0) = Ok (hq (Suc 0))"
    by auto
  from Cons.prems have rest: "\<forall>t<length rs. f (rs ! t) ((hq \<circ> Suc) t) = Ok ((hq \<circ> Suc) (Suc t))"
    by auto
  have "cum_map_loop f rs ((hq \<circ> Suc) 0) (acc @ [hq (Suc 0)])
        = Ok ((acc @ [hq (Suc 0)]) @ map (\<lambda>t. (hq \<circ> Suc) (Suc t)) [0..<length rs],
              (hq \<circ> Suc) (length rs))"
    using rest by (rule Cons.IH)
  then show ?case
    using first by (simp add: map_upt_Suc_shift del: upt_Suc)
qed

lemma cum_map_loop_total:
  assumes "\<And>x h. x \<in> set rs \<Longrightarrow> Q h \<Longrightarrow> \<exists>h'. f x h = Ok h' \<and> Q h'"
    and "Q h" and "\<forall>a\<in>set acc. Q a"
  shows "\<exists>res h'. cum_map_loop f rs h acc = Ok (res, h') \<and>
                  length res = length acc + length rs \<and> (\<forall>a\<in>set res. Q a) \<and> Q h'"
  using assms
proof (induction rs arbitrary: h acc)
  case Nil
  then show ?case by simp
next
  case (Cons r rs)
  from Cons.prems(1)[of r h] Cons.prems(2) obtain h' where h': "f r h = Ok h'" "Q h'"
    by auto
  have "\<exists>res h''. cum_map_loop f rs h' (acc @ [h']) = Ok (res, h'') \<and>
                   length res = length (acc @ [h']) + length rs \<and> (\<forall>a\<in>set res. Q a) \<and> Q h''"
  proof (rule Cons.IH)
    show "\<exists>h'. f x h = Ok h' \<and> Q h'" if "x \<in> set rs" "Q h" for x h
      using that Cons.prems(1)[of x h] by simp
    show "Q h'" by (rule h')
    show "\<forall>a\<in>set (acc @ [h']). Q a" using Cons.prems(3) h' by simp
  qed
  then show ?case
    using h' by simp
qed

lemma cum_map_run:
  assumes "shape xs = L # d" and "0 < L"
    and "\<forall>t<L. f (row xs t) (hq t) = Ok (hq (Suc t))"
    and "\<forall>t<L. shape (hq (Suc t)) = s"
  shows "cum_map f xs (hq 0)
         = Ok (\<lparr>shape = L # s, data = concat (map (\<lambda>t. data (hq (Suc t))) [0..<L])\<rparr>, hq L)"
proof -
  let ?rs = "map (row xs) [0..<L]"
  let ?res = "map (\<lambda>t. hq (Suc t)) [0..<L]"
  have "\<forall>t<length ?rs. f (?rs ! t) (hq t) = Ok (hq (Suc t))"
    using assms(3) by simp
  then have "cum_map_loop f ?rs (hq 0) []
             = Ok ([] @ map (\<lambda>t. hq (Suc t)) [0..<length ?rs], hq (length ?rs))"
    by (rule cum_map_loop_run)
  then have loop: "cum_map_loop f ?rs (hq 0) [] = Ok (?res, hq L)"
    by simp
  have "?res \<noteq> []" using assms(2) by simp
  moreover have "\<forall>u\<in>set ?res. shape u = s" using assms(4) by simp
  ultimately have "stack ?res = Ok \<lparr>shape = length ?res # s, data = concat (map data ?res)\<rparr>"
    by (rule stack_ok)
  then have "stack ?res = Ok \<lparr>shape = L # s, data = concat (map (\<lambda>t. data (hq (Suc t))) [0..<L])\<rparr>"
    by (simp add: o_def)
  then show ?thesis
    by (simp add: cum_map_def iter_shape[OF assms(1)] loop)
qed

lemma cum_map_empty: "shape xs = 0 # d \<Longrightarrow> cum_map f xs h = Error RuntimeError"
  by (simp add: cum_map_def iter_def stack_empty)

lemma cum_map_total:
  assumes "has_shape xs (L # d)" and "0 < L"
    and "\<And>x h. has_shape x d \<Longrightarrow> has_shape h s \<Longrightarrow> \<exists>h'. f x h = Ok h' \<and> has_shape h' s"
    and "has_shape h s"
  shows "\<exists>out h'. cum_map f xs h = Ok (out, h') \<and> has_shape out (L # s) \<and> has_shape h' s"
proof -
  let ?rs = "map (row xs) [0..<L]"
  have "\<exists>res h'. cum_map_loop f ?rs h [] = Ok (res, h') \<and>
                  length res = length ([]::tensor list) + length ?rs \<and>
                  (\<forall>a\<in>set res. has_shape a s) \<and> has_shape h' s"
  proof (rule cum_map_loop_total)
    show "\<exists>h'. f x h = Ok h' \<and> has_shape h' s" if "x \<in> set ?rs" "has_shape h s" for x h
    proof -
      from that(1) have "has_shape x d"
        using has_shape_row[OF assms(1)] by auto
      then show ?thesis using that(2) by (rule assms(3))
    qed
    show "has_shape h s" by (rule assms(4))
    show "\<forall>a\<in>set []. has_shape a s" by simp
  qed
  then obtain res h' where r: "cum_map_loop f ?rs h [] = Ok (res, h')" "length res = L"
    "\<forall>a\<in>set res. has_shape a s" "has_shape h' s"
    by auto
  have "res \<noteq> []" using r(2) assms(2) by auto
  moreover have "\<forall>u\<in>set res. shape u = s" using r(3) by (simp add: has_shape_def)
  ultimately have st: "stack res = Ok \<lparr>shape = length res # s, data = concat (map data res)\<rparr>"
    by (rule stack_ok)
  have "has_shape \<lparr>shape = length res # s, data = concat (map data res)\<rparr> (length res # s)"
    using r(3) by (rule has_shape_stacked)
  moreover have "shape xs = L # d" using assms(1) by (simp add: has_shape_def)
  ultimately show ?thesis
    using r st by (simp add: cum_map_def iter_shape)
qed

lemma mat_vec_matrix_of:
  assumes "has_shape w [m, n]" and "length x = n"
  shows "mat_vec (matrix_of w) x = map (\<lambda>i. \<Sum>j<n. data w ! (i * n + j) * x ! j) [0..<m]"
proof -
  have lw: "length (data w) = m * n" and sw: "shape w = [m, n]"
    using assms by (simp_all add: has_shape_def valid_def)
  have "map (\<lambda>i. \<Sum>j<n. chunk (data w) n i ! j * x ! j) [0..<m]
        = map (\<lambda>i. \<Sum>j<n. data w ! (i * n + j) * x ! j) [0..<m]"
  proof (rule map_cong[OF refl])
    fix i assume "i \<in> set [0..<m]"
    then have "i < m" by simp
    then have le: "Suc i * n \<le> length (data w)"
      unfolding lw by (metis Suc_leI mult_le_mono1)
    show "(\<Sum>j<n. chunk (data w) n i ! j * x ! j) = (\<Sum>j<n. data w ! (i * n + j) * x ! j)"
      using le by (intro sum.cong) (simp_all add: nth_chunk)
  qed
  then show ?thesis
    by (simp add: mat_vec_def matrix_of_def sw assms(2) o_def)
qed

lemma is_error_and_then: "is_error r \<Longrightarrow> is_error (and_then r k)"
  by (cases r) (simp_all add: is_error_def)

lemma is_error_Error [simp]: "is_error (Error e)"
  by (simp add: is_error_def)

lemma is_error_Ok [simp]: "\<not> is_error (Ok v)"
  by (simp add: is_error_def)

lemma is_error_and_thenI: "(\<And>v. r = Ok v \<Longrightarrow> is_error (k v)) \<Longrightarrow> is_error (and_then r k)"
  by (cases r) simp_all

lemma valid_zeros: "valid (zeros s)"
  by (simp add: valid_def zeros_def)

lemma shape_zeros [simp]: "shape (zeros s) = s"
  by (simp add: zeros_def)

lemma numel_zeros [simp]: "numel (zeros s) = prod_list s"
  by (simp add: numel_def)

lemma has_shape_zeros: "has_shape (zeros s) s"
  by (simp add: has_shape_def valid_def zeros_def)

lemma chunk_chunk: "j < b \<Longrightarrow> chunk (chunk d (b * k) i) k j = chunk d k (i * b + j)"
proof -
  assume "j < b"
  then have "Suc j * k \<le> b * k" by (metis Suc_leI mult_le_mono1)
  then have "k \<le> b * k - j * k" by simp
  then have "take k (drop (j * k) (take (b * k) (drop (i * (b * k)) d)))
             = take k (drop (j * k) (drop (i * (b * k)) d))"
    by (simp add: drop_take min_def)
  moreover have "j * k + i * (b * k) = (i * b + j) * k"
    by (simp add: algebra_simps)
  ultimately show ?thesis
    by (simp add: chunk_def)
qed

lemma length_concat_const:
  "\<forall>x\<in>set xs. length (f x) = k \<Longrightarrow> length (concat (map f xs)) = length xs * k"
  by (induction xs) simp_all

lemma einsum_ijk_jik_ok:
  assumes "has_shape t [a, b, c]"
  shows "\<exists>T. einsum_ijk_jik t = Ok T \<and> has_shape T [b, a, c] \<and>
             (\<forall>j<b. \<forall>i<a. row (row T j) i = row (row t i) j)"
proof -
  let ?d = "data t"
  let ?inner = "\<lambda>j. concat (map (\<lambda>i. chunk ?d c (i * b + j)) [0..<a])"
  let ?T = "\<lparr>shape = [b, a, c], data = concat (map ?inner [0..<b])\<rparr>"
  have st: "shape t = [a, b, c]" and ld: "length ?d = a * (b * c)"
    using assms by (simp_all add: has_shape_def valid_def)
  have lc: "length (chunk ?d c (i * b + j)) = c" if "i < a" "j < b" for i j
  proof (rule length_chunk)
    from that have "Suc (i * b + j) \<le> Suc i * b" by simp
    also from that have "\<dots> \<le> a * b" by (metis Suc_leI mult_le_mono1)
    finally have "Suc (i * b + j) * c \<le> a * b * c" by (rule mult_le_mono1)
    then show "Suc (i * b + j) * c \<le> length ?d" by (simp add: ld mult.assoc)
  qed
  have li: "length (?inner j) = a * c" if "j < b" for j
    using length_concat_const[of "[0..<a]" "\<lambda>i. chunk ?d c (i * b + j)" c] lc that by simp
  have 1: "einsum_ijk_jik t = Ok ?T"
    by (simp add: einsum_ijk_jik_def st)
  have 2: "has_shape ?T [b, a, c]"
    using length_concat_const[of "[0..<b]" ?inner "a * c"] li
    by (simp add: has_shape_def valid_def)
  have 3: "row (row ?T j) i = row (row t i) j" if "j < b" "i < a" for i j
  proof -
    have "chunk (concat (map ?inner [0..<b])) (a * c) j = map ?inner [0..<b] ! j"
      using that(1) li by (intro chunk_concat) auto
    then have rj: "data (row ?T j) = ?inner j"
      using that(1) by (simp add: row_def)
    have "chunk (?inner j) c i = map (\<lambda>i. chunk ?d c (i * b + j)) [0..<a] ! i"
      using that lc by (intro chunk_concat) auto
    then have "data (row (row ?T j) i) = chunk ?d c (i * b + j)"
      using that(2) rj by (simp add: row_def)
    moreover have "data (row (row t i) j) = chunk ?d c (i * b + j)"
      using that(1) by (simp add: row_def st chunk_chunk)
    moreover have "shape (row (row ?T j) i) = shape (row (row t i) j)"
      by (simp add: row_def st)
    ultimately show ?thesis by simp
  qed
  from 1 2 3 show ?thesis by blast
qed

lemma zip_map_upt:
  "zip (map f [0..<a]) (map g [0..<b]) = map (\<lambda>i. (f i, g i)) [0..<min a b]"
  by (rule nth_equalityI) simp_all

lemma row_of_one: "length d = prod_list s \<Longrightarrow> row \<lparr>shape = 1 # s, data = d\<rparr> 0 = \<lparr>shape = s, data = d\<rparr>"
  by (simp add: row_def chunk_def)

lemma has_shape_batch_of_one:
  "has_shape t (n # s) \<Longrightarrow> i < n \<Longrightarrow> has_shape (batch_of_one t i) (1 # s)"
  using has_shape_row[of t n s i] by (simp add: batch_of_one_def has_shape_def valid_def)

lemma row_batch_of_one:
  assumes "has_shape t (n # s)" and "i < n"
  shows "row (batch_of_one t i) 0 = row t i"
proof -
  have "has_shape (row t i) s" using assms by (rule has_shape_row)
  then have l: "length (data (row t i)) = prod_list s" and sr: "shape (row t i) = s"
    by (simp_all add: has_shape_def valid_def)
  have st: "shape t = n # s" using assms(1) by (simp add: has_shape_def)
  have "row (batch_of_one t i) 0 = \<lparr>shape = s, data = data (row t i)\<rparr>"
    using row_of_one[OF l] by (simp add: batch_of_one_def st)
  also have "\<dots> = row t i"
    using sr by simp
  finally show ?thesis .
qed

section \<open>The layer stack\<close>

lemma layers_loop_step:
  assumes "params_per_layer m" and "i < num_layers m"
  shows "layers_loop m f i (h # rest) x acc =
         and_then (cum_map (layer_cell m f i) x h) (\<lambda>(x', h_L).
           layers_loop m f (Suc i) rest x' (acc @ [h_L]))"
  using assms by (simp add: params_per_layer_def index_def layer_cell_def)

lemma layers_loop_run:
  assumes "params_per_layer m" and "i + length hs \<le> num_layers m"
    and "\<forall>l<length hs. cum_map (layer_cell m f (i + l)) (sq l) (hs ! l) = Ok (sq (Suc l), fin l)"
  shows "layers_loop m f i hs (sq 0) acc = Ok (sq (length hs), acc @ map fin [0..<length hs])"
  using assms(2,3)
proof (induction hs arbitrary: i sq fin acc)
  case Nil
  then show ?case by simp
next
  case (Cons h hs)
  from Cons.prems(1) have i: "i < num_layers m" and le: "Suc i + length hs \<le> num_layers m"
    by simp_all
  from Cons.prems(2) have first: "cum_map (layer_cell m f i) (sq 0) h = Ok (sq (Suc 0), fin 0)"
    by fastforce
  have rest: "\<forall>l<length hs. cum_map (layer_cell m f (Suc i + l)) ((sq \<circ> Suc) l) (hs ! l)
                = Ok ((sq \<circ> Suc) (Suc l), (fin \<circ> Suc) l)"
  proof (intro allI impI)
    fix l assume "l < length hs"
    then have "Suc l < length (h # hs)" by simp
    with Cons.prems(2) have "cum_map (layer_cell m f (i + Suc l)) (sq (Suc l)) ((h # hs) ! Suc l)
                             = Ok (sq (Suc (Suc l)), fin (Suc l))"
      by blast
    then show "cum_map (layer_cell m f (Suc i + l)) ((sq \<circ> Suc) l) (hs ! l)
               = Ok ((sq \<circ> Suc) (Suc l), (fin \<circ> Suc) l)"
      by simp
  qed
  have "layers_loop m f (Suc i) hs ((sq \<circ> Suc) 0) (acc @ [fin 0])
        = Ok ((sq \<circ> Suc) (length hs), (acc @ [fin 0]) @ map (fin \<circ> Suc) [0..<length hs])"
    using le rest by (rule Cons.IH)
  then show ?case
    using first
    by (simp add: layers_loop_step[OF assms(1) i] map_upt_Suc_shift o_def
        del: upt_Suc layers_loop.simps)
qed

lemma layers_loop_overrun:
  assumes "params_per_layer m" and "i \<le> num_layers m" and "num_layers m < i + length hs"
  shows "is_error (layers_loop m f i hs x acc)"
  using assms(2,3)
proof (induction hs arbitrary: i x acc)
  case Nil
  then show ?case by simp
next
  case (Cons h hs)
  show ?case
  proof (cases "i < num_layers m")
    case False
    then have "index (ws_ih m) i = Error IndexError"
      using assms(1) by (simp add: index_def params_per_layer_def)
    then show ?thesis by (simp add: is_error_def)
  next
    case True
    show ?thesis
    proof (cases "cum_map (layer_cell m f i) x h")
      case (Inl e)
      then show ?thesis
        by (simp add: layers_loop_step[OF assms(1) True] is_error_def del: layers_loop.simps)
    next
      case (Inr r)
      obtain x' h_L where r: "r = (x', h_L)" by (cases r)
      have "is_error (layers_loop m f (Suc i) hs x' (acc @ [h_L]))"
        using True Cons.prems by (intro Cons.IH) simp_all
      then show ?thesis
        using Inr r by (simp add: layers_loop_step[OF assms(1) True] del: layers_loop.simps)
    qed
  qed
qed

lemma layers_forward_run:
  assumes "params_per_layer m" and "shape h_inits = n # s0" and "0 < n" and "n \<le> num_layers m"
    and "\<forall>l<n. cum_map (layer_cell m f l) (sq l) (row h_inits l) = Ok (sq (Suc l), fin l)"
    and "\<forall>l<n. shape (fin l) = s"
  shows "layers_forward m f (sq 0) h_inits
         = Ok (sq n, \<lparr>shape = n # s, data = concat (map (\<lambda>l. data (fin l)) [0..<n])\<rparr>)"
proof -
  let ?hs = "map (row h_inits) [0..<n]"
  let ?res = "map fin [0..<n]"
  have "layers_loop m f 0 ?hs (sq 0) [] = Ok (sq (length ?hs), [] @ map fin [0..<length ?hs])"
    using assms(1)
  proof (rule layers_loop_run)
    show "0 + length ?hs \<le> num_layers m" using assms(4) by simp
    show "\<forall>l<length ?hs. cum_map (layer_cell m f (0 + l)) (sq l) (?hs ! l) = Ok (sq (Suc l), fin l)"
      using assms(5) by simp
  qed
  then have loop: "layers_loop m f 0 ?hs (sq 0) [] = Ok (sq n, ?res)"
    by simp
  have "?res \<noteq> []" using assms(3) by simp
  moreover have "\<forall>u\<in>set ?res. shape u = s" using assms(6) by simp
  ultimately have "stack ?res = Ok \<lparr>shape = length ?res # s, data = concat (map data ?res)\<rparr>"
    by (rule stack_ok)
  then have "stack ?res = Ok \<lparr>shape = n # s, data = concat (map (\<lambda>l. data (fin l)) [0..<n])\<rparr>"
    by (simp add: o_def)
  then show ?thesis
    by (simp add: layers_forward_def iter_shape[OF assms(2)] loop)
qed

lemma rnn_wf_params: "rnn_wf m \<Longrightarrow> params_per_layer m"
  by (simp add: rnn_wf_def params_per_layer_def)

lemma rnn_wf_layer:
  assumes "rnn_wf m" and "l < num_layers m"
  shows "has_shape (ws_ih m ! l) [hidden_size m, layer_input_size m l]"
    and "has_shape (ws_hh m ! l) [hidden_size m, hidden_size m]"
    and "has_shape (bs_ih m ! l) [hidden_size m]"
    and "has_shape (bs_hh m ! l) [hidden_size m]"
  using assms by (simp_all add: rnn_wf_def list_all_iff)

lemma layer_cell_total:
  assumes "rnn_wf m" and "l < num_layers m"
    and "has_shape x [layer_input_size m l]" and "has_shape h [hidden_size m]"
  shows "\<exists>h'. layer_cell m tanh_cell l x h = Ok h' \<and> has_shape h' [hidden_size m]"
proof -
  note p = rnn_wf_layer[OF assms(1,2)]
  show ?thesis
    unfolding layer_cell_def
    using tanh_cell_value[OF p(1) p(2) p(3) p(4) assms(3) assms(4)]
    by (simp add: has_shape_vec)
qed

lemma layers_loop_total:
  assumes "rnn_wf m" and "0 < L"
    and "i + length hs \<le> num_layers m"
    and "\<forall>h\<in>set hs. has_shape h [hidden_size m]"
    and "has_shape x [L, layer_input_size m i]"
    and "\<forall>a\<in>set acc. has_shape a [hidden_size m]"
  shows "\<exists>out res. layers_loop m tanh_cell i hs x acc = Ok (out, res) \<and>
                    has_shape out [L, layer_input_size m (i + length hs)] \<and>
                    length res = length acc + length hs \<and>
                    (\<forall>a\<in>set res. has_shape a [hidden_size m])"
  using assms(3-6)
proof (induction hs arbitrary: i x acc)
  case Nil
  then show ?case by simp
next
  case (Cons h hs)
  from Cons.prems(1) have i: "i < num_layers m" by simp
  have "\<exists>out h'. cum_map (layer_cell m tanh_cell i) x h = Ok (out, h') \<and>
                  has_shape out [L, hidden_size m] \<and> has_shape h' [hidden_size m]"
  proof (rule cum_map_total)
    show "has_shape x [L, layer_input_size m i]" by (rule Cons.prems(3))
    show "0 < L" by (rule assms(2))
    show "\<exists>h'. layer_cell m tanh_cell i x h = Ok h' \<and> has_shape h' [hidden_size m]"
      if "has_shape x [layer_input_size m i]" "has_shape h [hidden_size m]" for x h
      using assms(1) i that by (rule layer_cell_total)
    show "has_shape h [hidden_size m]" using Cons.prems(2) by simp
  qed
  then obtain out h' where c: "cum_map (layer_cell m tanh_cell i) x h = Ok (out, h')"
    "has_shape out [L, hidden_size m]" "has_shape h' [hidden_size m]"
    by blast
  have "\<exists>out' res. layers_loop m tanh_cell (Suc i) hs out (acc @ [h']) = Ok (out', res) \<and>
                     has_shape out' [L, layer_input_size m (Suc i + length hs)] \<and>
                     length res = length (acc @ [h']) + length hs \<and>
                     (\<forall>a\<in>set res. has_shape a [hidden_size m])"
  proof (rule Cons.IH)
    show "Suc i + length hs \<le> num_layers m" using Cons.prems(1) by simp
    show "\<forall>h\<in>set hs. has_shape h [hidden_size m]" using Cons.prems(2) by simp
    show "has_shape out [L, layer_input_size m (Suc i)]"
      using c(2) by (simp add: layer_input_size_def)
    show "\<forall>a\<in>set (acc @ [h']). has_shape a [hidden_size m]"
      using Cons.prems(4) c(3) by simp
  qed
  then show ?case
    using c(1)
    by (simp add: layers_loop_step[OF rnn_wf_params[OF assms(1)] i] del: layers_loop.simps)
qed

lemma layers_forward_total:
  assumes "rnn_wf m" and "0 < L" and "0 < n" and "n \<le> num_layers m"
    and "has_shape x [L, input_size m]" and "has_shape h_inits [n, hidden_size m]"
  shows "\<exists>hs hn. layers_forward m tanh_cell x h_inits = Ok (hs, hn) \<and>
                  has_shape hs [L, hidden_size m] \<and> has_shape hn [n, hidden_size m]"
proof -
  let ?rows = "map (row h_inits) [0..<n]"
  have "\<exists>out res. layers_loop m tanh_cell 0 ?rows x [] = Ok (out, res) \<and>
                    has_shape out [L, layer_input_size m (0 + length ?rows)] \<and>
                    length res = length ([]::tensor list) + length ?rows \<and>
                    (\<forall>a\<in>set res. has_shape a [hidden_size m])"
    using assms(1,2)
  proof (rule layers_loop_total)
    show "0 + length ?rows \<le> num_layers m" using assms(4) by simp
    show "\<forall>h\<in>set ?rows. has_shape h [hidden_size m]"
      using has_shape_row[OF assms(6)] by simp
    show "has_shape x [L, layer_input_size m 0]"
      using assms(5) by (simp add: layer_input_size_def)
    show "\<forall>a\<in>set []. has_shape a [hidden_size m]" by simp
  qed
  then obtain out res where r: "layers_loop m tanh_cell 0 ?rows x [] = Ok (out, res)"
    "has_shape out [L, hidden_size m]" "length res = n"
    "\<forall>a\<in>set res. has_shape a [hidden_size m]"
    using assms(3) by (auto simp: layer_input_size_def)
  have "res \<noteq> []" using r(3) assms(3) by auto
  moreover have "\<forall>u\<in>set res. shape u = [hidden_size m]"
    using r(4) by (simp add: has_shape_def)
  ultimately have st: "stack res = Ok \<lparr>shape = length res # [hidden_size m],
                                        data = concat (map data res)\<rparr>"
    by (rule stack_ok)
  have "has_shape \<lparr>shape = length res # [hidden_size m], data = concat (map data res)\<rparr>
          (length res # [hidden_size m])"
    using r(4) by (rule has_shape_stacked)
  moreover have "shape h_inits = [n, hidden_size m]"
    using assms(6) by (simp add: has_shape_def)
  ultimately show ?thesis
    using r st by (simp add: layers_forward_def iter_shape)
qed

lemma layers_forward_empty_sequence:
  assumes "shape x = 0 # d"
  shows "is_error (layers_forward m f x h_inits)"
proof (cases "shape h_inits")
  case Nil
  then show ?thesis by (simp add: layers_forward_def iter_def)
next
  case (Cons n s)
  show ?thesis
  proof (cases n)
    case 0
    with Cons show ?thesis by (simp add: layers_forward_def iter_def stack_empty)
  next
    case (Suc k)
    have "is_error (layers_loop m f 0 (row h_inits 0 # map (row h_inits) [Suc 0..<Suc k]) x [])"
      by (auto simp: cum_map_empty[OF assms] intro!: is_error_and_thenI)
    moreover have "[0..<Suc k] = 0 # [Suc 0..<Suc k]"
      by (simp add: upt_conv_Cons)
    ultimately show ?thesis
      using Cons Suc by (simp add: layers_forward_def iter_def is_error_and_then del: upt_Suc layers_loop.simps)
  qed
qed

section \<open>The batch driver\<close>

lemma batch_loop_run:
  "\<forall>i<length ps. batch_forward m (fst (ps ! i)) (snd (ps ! i)) = Ok (hs i, hn i) \<Longrightarrow>
   batch_loop m ps a b = Ok (a @ map hs [0..<length ps], b @ map hn [0..<length ps])"
proof (induction ps arbitrary: hs hn a b)
  case Nil
  then show ?case by simp
next
  case (Cons p ps)
  obtain xb hb where p: "p = (xb, hb)" by (cases p)
  from Cons.prems p have first: "batch_forward m xb hb = Ok (hs 0, hn 0)"
    by fastforce
  have rest: "\<forall>i<length ps. batch_forward m (fst (ps ! i)) (snd (ps ! i))
                = Ok ((hs \<circ> Suc) i, (hn \<circ> Suc) i)"
  proof (intro allI impI)
    fix i assume "i < length ps"
    then have "Suc i < length (p # ps)" by simp
    with Cons.prems have "batch_forward m (fst ((p # ps) ! Suc i)) (snd ((p # ps) ! Suc i))
                          = Ok (hs (Suc i), hn (Suc i))"
      by blast
    then show "batch_forward m (fst (ps ! i)) (snd (ps ! i)) = Ok ((hs \<circ> Suc) i, (hn \<circ> Suc) i)"
      by simp
  qed
  have "batch_loop m ps (a @ [hs 0]) (b @ [hn 0])
        = Ok ((a @ [hs 0]) @ map (hs \<circ> Suc) [0..<length ps],
              (b @ [hn 0]) @ map (hn \<circ> Suc) [0..<length ps])"
    using rest by (rule Cons.IH)
  then show ?case
    using first p by (simp add: map_upt_Suc_shift o_def del: upt_Suc)
qed

lemma forward_run:
  assumes "shape x = nx # sx" and "numel h_0 = n * num_layers m * hidden_size m"
    and "k = min nx n" and "0 < k"
    and "\<forall>i<k. batch_forward m (row x i)
                  (row \<lparr>shape = [n, num_layers m, hidden_size m], data = data h_0\<rparr> i)
                = Ok (hs i, hn i)"
    and "\<forall>i<k. shape (hs i) = s1" and "\<forall>i<k. shape (hn i) = s2"
  shows "forward (Some n) m x (Some h_0) =
         and_then (einsum_ijk_jik \<lparr>shape = k # s2, data = concat (map (\<lambda>i. data (hn i)) [0..<k])\<rparr>)
           (\<lambda>hn'. Ok (\<lparr>shape = k # s1, data = concat (map (\<lambda>i. data (hs i)) [0..<k])\<rparr>, hn'))"
proof -
  let ?h = "\<lparr>shape = [n, num_layers m, hidden_size m], data = data h_0\<rparr>"
  let ?ps = "map (\<lambda>i. (row x i, row ?h i)) [0..<k]"
  have rs: "reshape h_0 [n, num_layers m, hidden_size m] = Ok ?h"
    using assms(2) by (simp add: reshape_def mult.assoc)
  have ix: "iter x = Ok (map (row x) [0..<nx])"
    using assms(1) by (rule iter_shape)
  have ih: "iter ?h = Ok (map (row ?h) [0..<n])"
    by (rule iter_shape) simp
  have zp: "zip (map (row x) [0..<nx]) (map (row ?h) [0..<n]) = ?ps"
    by (simp add: zip_map_upt assms(3))
  have "batch_loop m ?ps [] [] = Ok ([] @ map hs [0..<length ?ps], [] @ map hn [0..<length ?ps])"
    using assms(5) by (intro batch_loop_run) simp
  then have bl: "batch_loop m ?ps [] [] = Ok (map hs [0..<k], map hn [0..<k])"
    by simp
  have ne: "map hs [0..<k] \<noteq> []" "map hn [0..<k] \<noteq> []"
    using assms(4) by simp_all
  have "stack (map hs [0..<k])
        = Ok \<lparr>shape = length (map hs [0..<k]) # s1, data = concat (map data (map hs [0..<k]))\<rparr>"
    using ne(1) assms(6) by (intro stack_ok) simp_all
  then have s1: "stack (map hs [0..<k])
                 = Ok \<lparr>shape = k # s1, data = concat (map (\<lambda>i. data (hs i)) [0..<k])\<rparr>"
    by (simp add: o_def)
  have "stack (map hn [0..<k])
        = Ok \<lparr>shape = length (map hn [0..<k]) # s2, data = concat (map data (map hn [0..<k]))\<rparr>"
    using ne(2) assms(7) by (intro stack_ok) simp_all
  then have s2: "stack (map hn [0..<k])
                 = Ok \<lparr>shape = k # s2, data = concat (map (\<lambda>i. data (hn i)) [0..<k])\<rparr>"
    by (simp add: o_def)
  show ?thesis
    by (simp add: forward_def global_N_def rs ix ih zp bl s1 s2)
qed

lemma forward_total:
  assumes "rnn_wf m" and "0 < num_layers m" and "0 < L"
    and "has_shape x [nx, L, input_size m]"
    and "valid h_0" and "numel h_0 = n * num_layers m * hidden_size m"
    and "k = min nx n" and "0 < k"
  shows "\<exists>hs hn HS T HN.
           (\<forall>i<k. batch_forward m (row x i)
                     (row \<lparr>shape = [n, num_layers m, hidden_size m], data = data h_0\<rparr> i)
                   = Ok (hs i, hn i)) \<and>
           forward (Some n) m x (Some h_0) = Ok (HS, HN) \<and>
           stack (map hs [0..<k]) = Ok HS \<and> stack (map hn [0..<k]) = Ok T \<and>
           einsum_ijk_jik T = Ok HN \<and>
           has_shape HS [k, L, hidden_size m] \<and> has_shape HN [num_layers m, k, hidden_size m] \<and>
           (\<forall>i<k. row HS i = hs i) \<and>
           (\<forall>l<num_layers m. \<forall>i<k. row (row HN l) i = row (hn i) l)"
proof -
  let ?nl = "num_layers m" and ?H = "hidden_size m"
  let ?h = "\<lparr>shape = [n, ?nl, ?H], data = data h_0\<rparr>"
  define hs where "hs = (\<lambda>i. fst (projr (batch_forward m (row x i) (row ?h i))))"
  define hn where "hn = (\<lambda>i. snd (projr (batch_forward m (row x i) (row ?h i))))"
  have sh: "has_shape ?h [n, ?nl, ?H]"
    using assms(5,6) by (simp add: has_shape_def valid_def numel_def mult.assoc)
  have sx: "shape x = nx # [L, input_size m]"
    using assms(4) by (simp add: has_shape_def)
  have each: "batch_forward m (row x i) (row ?h i) = Ok (hs i, hn i) \<and>
              has_shape (hs i) [L, ?H] \<and> has_shape (hn i) [?nl, ?H]" if "i < k" for i
  proof -
    from that assms(7) have "i < nx" "i < n" by simp_all
    have "\<exists>a b. layers_forward m tanh_cell (row x i) (row ?h i) = Ok (a, b) \<and>
                has_shape a [L, ?H] \<and> has_shape b [?nl, ?H]"
      using assms(1,3,2)
    proof (rule layers_forward_total)
      show "?nl \<le> ?nl" by simp
      show "has_shape (row x i) [L, input_size m]"
        using assms(4) \<open>i < nx\<close> by (rule has_shape_row)
      show "has_shape (row ?h i) [?nl, ?H]"
        using sh \<open>i < n\<close> by (rule has_shape_row)
    qed
    then show ?thesis
      by (auto simp: batch_forward_def hs_def hn_def)
  qed
  let ?HS = "\<lparr>shape = length (map hs [0..<k]) # [L, ?H], data = concat (map data (map hs [0..<k]))\<rparr>"
  let ?T = "\<lparr>shape = length (map hn [0..<k]) # [?nl, ?H], data = concat (map data (map hn [0..<k]))\<rparr>"
  have ahs: "\<forall>u\<in>set (map hs [0..<k]). has_shape u [L, ?H]"
    and ahn: "\<forall>u\<in>set (map hn [0..<k]). has_shape u [?nl, ?H]"
    using each by simp_all
  have ne: "map hs [0..<k] \<noteq> []" "map hn [0..<k] \<noteq> []"
    using assms(8) by simp_all
  have stS: "stack (map hs [0..<k]) = Ok ?HS"
    using ne(1) ahs by (intro stack_ok) (simp_all add: has_shape_def)
  have stT: "stack (map hn [0..<k]) = Ok ?T"
    using ne(2) ahn by (intro stack_ok) (simp_all add: has_shape_def)
  have shS: "has_shape ?HS [k, L, ?H]"
    using has_shape_stacked[OF ahs] by simp
  have shT: "has_shape ?T [k, ?nl, ?H]"
    using has_shape_stacked[OF ahn] by simp
  from einsum_ijk_jik_ok[OF shT] obtain HN where HN: "einsum_ijk_jik ?T = Ok HN"
    "has_shape HN [?nl, k, ?H]" "\<forall>j<?nl. \<forall>i<k. row (row HN j) i = row (row ?T i) j"
    by blast
  have rowS: "row ?HS i = hs i" if "i < k" for i
    using row_stacked[OF ahs, of i] that by simp
  have rowT: "row ?T i = hn i" if "i < k" for i
    using row_stacked[OF ahn, of i] that by simp
  have "forward (Some n) m x (Some h_0) =
        and_then (einsum_ijk_jik \<lparr>shape = k # [?nl, ?H], data = concat (map (\<lambda>i. data (hn i)) [0..<k])\<rparr>)
          (\<lambda>hn'. Ok (\<lparr>shape = k # [L, ?H], data = concat (map (\<lambda>i. data (hs i)) [0..<k])\<rparr>, hn'))"
    using sx assms(6,7,8)
  proof (rule forward_run)
    show "\<forall>i<k. batch_forward m (row x i) (row ?h i) = Ok (hs i, hn i)"
      using each by simp
    show "\<forall>i<k. shape (hs i) = [L, ?H]" using each by (simp add: has_shape_def)
    show "\<forall>i<k. shape (hn i) = [?nl, ?H]" using each by (simp add: has_shape_def)
  qed
  then have fw: "forward (Some n) m x (Some h_0) = Ok (?HS, HN)"
    using HN(1) by (simp add: o_def)
  have rows: "\<forall>l<?nl. \<forall>i<k. row (row HN l) i = row (hn i) l"
    using HN(3) rowT by simp
  have "(\<forall>i<k. batch_forward m (row x i) (row ?h i) = Ok (hs i, hn i)) \<and>
        forward (Some n) m x (Some h_0) = Ok (?HS, HN) \<and>
        stack (map hs [0..<k]) = Ok ?HS \<and> stack (map hn [0..<k]) = Ok ?T \<and>
        einsum_ijk_jik ?T = Ok HN \<and>
        has_shape ?HS [k, L, ?H] \<and> has_shape HN [?nl, k, ?H] \<and>
        (\<forall>i<k. row ?HS i = hs i) \<and>
        (\<forall>l<?nl. \<forall>i<k. row (row HN l) i = row (hn i) l)"
    using each fw stS stT HN(1,2) shS rowS rows by blast
  then show ?thesis by blast
qed

lemma forward_reshape_invariant:
  assumes "numel h_0 = n * num_layers m * hidden_size m"
  shows "forward (Some n) m x (Some h_0)
         = forward (Some n) m x (Some \<lparr>shape = [n, num_layers m, hidden_size m], data = data h_0\<rparr>)"
  using assms by (simp add: forward_def global_N_def reshape_def numel_def mult.assoc)

lemma forward_default_h_0:
  "forward (Some n) m x None = forward (Some n) m x (Some (zeros [num_layers m, n, hidden_size m]))"
  by (simp add: forward_def global_N_def)

lemma forward_unbound_N: "forward None m x h_0 = Error NameError"
  by (cases h_0) (simp_all add: forward_def global_N_def)

lemma forward_count_mismatch:
  "numel h_0 \<noteq> n * num_layers m * hidden_size m \<Longrightarrow>
   forward (Some n) m x (Some h_0) = Error RuntimeError"
  by (auto simp: forward_def global_N_def reshape_def mult.assoc)

lemma forward_empty_sequence:
  assumes "shape x = nx # 0 # d"
  shows "is_error (forward N m x h_0)"
proof (cases N)
  case None
  then show ?thesis by (simp add: forward_unbound_N)
next
  case (Some n)
  have main: "is_error (forward (Some n) m x (Some t))" for t
  proof (cases "numel t = n * num_layers m * hidden_size m")
    case False
    then show ?thesis by (simp add: forward_count_mismatch)
  next
    case True
    let ?h = "\<lparr>shape = [n, num_layers m, hidden_size m], data = data t\<rparr>"
    let ?k = "min nx n"
    let ?p = "\<lambda>i. (row x i, row ?h i)"
    have rs: "reshape t [n, num_layers m, hidden_size m] = Ok ?h"
      using True by (simp add: reshape_def mult.assoc)
    have ix: "iter x = Ok (map (row x) [0..<nx])"
      using assms by (rule iter_shape)
    have ih: "iter ?h = Ok (map (row ?h) [0..<n])"
      by (rule iter_shape) simp
    have zp: "zip (map (row x) [0..<nx]) (map (row ?h) [0..<n]) = map ?p [0..<?k]"
      by (rule zip_map_upt)
    show ?thesis
    proof (cases "?k = 0")
      case True
      then show ?thesis
        by (simp add: forward_def global_N_def rs ix ih zp stack_empty)
    next
      case False
      then have u: "[0..<?k] = 0 # [Suc 0..<?k]"
        by (simp add: upt_conv_Cons)
      have "shape (row x 0) = 0 # d"
        using assms by (simp add: row_def)
      then have "is_error (batch_forward m (row x 0) (row ?h 0))"
        unfolding batch_forward_def by (rule layers_forward_empty_sequence)
      then have "is_error (batch_loop m (?p 0 # map ?p [Suc 0..<?k]) [] [])"
        by (simp add: is_error_and_then)
      then have "is_error (batch_loop m (map ?p [0..<?k]) [] [])"
        using u by simp
      then show ?thesis
        by (simp add: forward_def global_N_def rs ix ih zp is_error_and_then)
    qed
  qed
  show ?thesis
  proof (cases h_0)
    case None
    then show ?thesis
      using main Some by (simp add: forward_default_h_0)
  next
    case (Some t)
    then show ?thesis
      using main \<open>N = Some n\<close> by simp
  qed
qed

text \<open>
  The batch driver when the module-level \<open>N\<close> is bound to the batch size of the input of
  the call. For a well-formed RNN of at least one layer, an input \<open>x\<close> of shape
  \<open>(N, L, H_in)\<close> with \<open>N \<ge> 1\<close> and \<open>L \<ge> 1\<close> and an \<open>h_0\<close> of shape
  \<open>(N, num_layers, H_out)\<close>, \<open>forward\<close> returns the stack of the per-row results of
  \<open>batch_forward\<close>, of shape \<open>(N, L, H_out)\<close>, and the stack of the per-row final
  states with its first two axes exchanged, of shape \<open>(num_layers, N, H_out)\<close>; and the
  results agree row for row with those of the calls on the batches of size 1, each made
  with \<open>N\<close> bound to 1.
\<close>

lemma forward_shapes_matching_N:
  assumes "rnn_wf m" and "1 \<le> num_layers m"
    and "has_shape x [n, L, input_size m]" and "1 \<le> n" and "1 \<le> L"
    and "has_shape h_0 [n, num_layers m, hidden_size m]"
  shows "\<exists>hs hn HS T HN.
           (\<forall>i<n. batch_forward m (row x i) (row h_0 i) = Ok (hs i, hn i)) \<and>
           forward (Some n) m x (Some h_0) = Ok (HS, HN) \<and>
           stack (map hs [0..<n]) = Ok HS \<and>
           stack (map hn [0..<n]) = Ok T \<and> einsum_ijk_jik T = Ok HN \<and>
           has_shape HS [n, L, hidden_size m] \<and>
           has_shape HN [num_layers m, n, hidden_size m] \<and>
           (\<forall>i<n. row HS i = hs i) \<and>
           (\<forall>l<num_layers m. \<forall>i<n. row (row HN l) i = row (hn i) l)"
proof -
  have same: "\<lparr>shape = [n, num_layers m, hidden_size m], data = data h_0\<rparr> = h_0"
    using assms(6) by (simp add: has_shape_def)
  have "valid h_0" and "numel h_0 = n * num_layers m * hidden_size m"
    using assms(6) by (simp_all add: has_shape_def numel_def)
  then show ?thesis
    using forward_total[OF assms(1) _ _ assms(3), of h_0 n n] assms(2,4,5)
    by (simp add: same)
qed

lemma batch_independence_matching_N:
  assumes "rnn_wf m" and "1 \<le> num_layers m"
    and "has_shape x [n, L, input_size m]" and "1 \<le> n" and "1 \<le> L"
    and "has_shape h_0 [n, num_layers m, hidden_size m]"
  shows "\<exists>HS HN.
           forward (Some n) m x (Some h_0) = Ok (HS, HN) \<and>
           (\<forall>i<n. \<exists>HS1 HN1.
              forward (Some 1) m (batch_of_one x i) (Some (batch_of_one h_0 i)) = Ok (HS1, HN1) \<and>
              has_shape HS1 [1, L, hidden_size m] \<and>
              has_shape HN1 [num_layers m, 1, hidden_size m] \<and>
              row HS1 0 = row HS i \<and>
              (\<forall>l<num_layers m. row (row HN1 l) 0 = row (row HN l) i))"
proof -
  let ?nl = "num_layers m" and ?H = "hidden_size m"
  have same: "\<lparr>shape = [n, ?nl, ?H], data = data h_0\<rparr> = h_0"
    using assms(6) by (simp add: has_shape_def)
  have v: "valid h_0" "numel h_0 = n * ?nl * ?H"
    using assms(6) by (simp_all add: has_shape_def numel_def)
  have "\<exists>hs hn HS T HN.
          (\<forall>i<n. batch_forward m (row x i) (row \<lparr>shape = [n, ?nl, ?H], data = data h_0\<rparr> i)
                  = Ok (hs i, hn i)) \<and>
          forward (Some n) m x (Some h_0) = Ok (HS, HN) \<and>
          stack (map hs [0..<n]) = Ok HS \<and> stack (map hn [0..<n]) = Ok T \<and>
          einsum_ijk_jik T = Ok HN \<and>
          has_shape HS [n, L, ?H] \<and> has_shape HN [?nl, n, ?H] \<and>
          (\<forall>i<n. row HS i = hs i) \<and>
          (\<forall>l<?nl. \<forall>i<n. row (row HN l) i = row (hn i) l)"
    using assms(1) _ _ assms(3) v
  proof (rule forward_total)
    show "0 < ?nl" using assms(2) by simp
    show "0 < L" using assms(5) by simp
    show "n = min n n" by simp
    show "0 < n" using assms(4) by simp
  qed
  then obtain hs hn HS HN where full:
    "\<forall>i<n. batch_forward m (row x i) (row h_0 i) = Ok (hs i, hn i)"
    "forward (Some n) m x (Some h_0) = Ok (HS, HN)"
    "\<forall>i<n. row HS i = hs i"
    "\<forall>l<?nl. \<forall>i<n. row (row HN l) i = row (hn i) l"
    unfolding same by blast
  have one: "\<exists>HS1 HN1.
      forward (Some 1) m (batch_of_one x i) (Some (batch_of_one h_0 i)) = Ok (HS1, HN1) \<and>
      has_shape HS1 [1, L, ?H] \<and> has_shape HN1 [?nl, 1, ?H] \<and>
      row HS1 0 = row HS i \<and> (\<forall>l<?nl. row (row HN1 l) 0 = row (row HN l) i)"
    if i: "i < n" for i
  proof -
    let ?x1 = "batch_of_one x i" and ?h1 = "batch_of_one h_0 i"
    have sx1: "has_shape ?x1 [1, L, input_size m]"
      using assms(3) i by (rule has_shape_batch_of_one)
    have sh1: "has_shape ?h1 [1, ?nl, ?H]"
      using assms(6) i by (rule has_shape_batch_of_one)
    have same1: "\<lparr>shape = [1, ?nl, ?H], data = data ?h1\<rparr> = ?h1"
      using sh1 by (simp add: has_shape_def)
    have v1: "valid ?h1" "numel ?h1 = 1 * ?nl * ?H"
      using sh1 by (simp_all add: has_shape_def numel_def)
    have rx: "row ?x1 0 = row x i"
      using assms(3) i by (rule row_batch_of_one)
    have rh: "row ?h1 0 = row h_0 i"
      using assms(6) i by (rule row_batch_of_one)
    have "\<exists>hs hn HS T HN.
           (\<forall>j<1. batch_forward m (row ?x1 j)
                      (row \<lparr>shape = [1, ?nl, ?H], data = data ?h1\<rparr> j) = Ok (hs j, hn j)) \<and>
           forward (Some 1) m ?x1 (Some ?h1) = Ok (HS, HN) \<and>
           stack (map hs [0..<1]) = Ok HS \<and> stack (map hn [0..<1]) = Ok T \<and>
           einsum_ijk_jik T = Ok HN \<and>
           has_shape HS [1, L, ?H] \<and> has_shape HN [?nl, 1, ?H] \<and>
           (\<forall>j<1. row HS j = hs j) \<and>
           (\<forall>l<?nl. \<forall>j<1. row (row HN l) j = row (hn j) l)"
      using assms(1) _ _ sx1 v1
    proof (rule forward_total)
      show "0 < ?nl" using assms(2) by simp
      show "0 < L" using assms(5) by simp
      show "(1::nat) = min 1 1" by simp
      show "0 < (1::nat)" by simp
    qed
    then obtain hs1 hn1 HS1 HN1 where raw:
      "\<forall>j<1. batch_forward m (row ?x1 j) (row ?h1 j) = Ok (hs1 j, hn1 j)"
      "forward (Some 1) m ?x1 (Some ?h1) = Ok (HS1, HN1)"
      "has_shape HS1 [1, L, ?H]" "has_shape HN1 [?nl, 1, ?H]"
      "\<forall>j<1. row HS1 j = hs1 j"
      "\<forall>l<?nl. \<forall>j<1. row (row HN1 l) j = row (hn1 j) l"
      unfolding same1
      apply (elim exE conjE)
      subgoal for hs hn HS T HN by (rule that[of hs hn HS HN])
      done
    have single:
      "batch_forward m (row ?x1 0) (row ?h1 0) = Ok (hs1 0, hn1 0)"
      "forward (Some 1) m ?x1 (Some ?h1) = Ok (HS1, HN1)"
      "has_shape HS1 [1, L, ?H]" "has_shape HN1 [?nl, 1, ?H]"
      "row HS1 0 = hs1 0"
      "\<forall>l<?nl. row (row HN1 l) 0 = row (hn1 0) l"
      using raw by simp_all
    from single(1) full(1) i have eq: "hs1 0 = hs i" "hn1 0 = hn i"
      by (simp_all add: rx rh)
    have "row HS1 0 = row HS i"
      using single(5) full(3) i eq by simp
    moreover have "\<forall>l<?nl. row (row HN1 l) 0 = row (row HN l) i"
      using single(6) full(4) i eq by simp
    ultimately show ?thesis
      using single(2,3,4) by blast
  qed
  from full(2) one show ?thesis by blast
qed

section \<open>The concrete inputs\<close>

lemma rnn_wf_scalar_rnn: "rnn_wf (scalar_rnn k)"
  by (simp add: rnn_wf_def scalar_rnn_def list_all_iff has_shape_def valid_def mat11_def
      vec1_def layer_input_size_def)

lemma sizes_scalar_rnn [simp]:
  "num_layers (scalar_rnn k) = k" "hidden_size (scalar_rnn k) = 1" "input_size (scalar_rnn k) = 1"
  by (simp_all add: scalar_rnn_def)

lemma has_shape_vec1: "has_shape (vec1 a) [1]"
  by (simp add: has_shape_def valid_def vec1_def)

lemma has_shape_mat11: "has_shape (mat11 a) [1, 1]"
  by (simp add: has_shape_def valid_def mat11_def)

lemma scalar_cell_value: "scalar_cell (vec1 a) (vec1 b) = Ok (vec1 (tanh (a + b)))"
  unfolding scalar_cell_def
  using tanh_cell_value[OF has_shape_mat11[of 1] has_shape_mat11[of 1] has_shape_vec1[of 0]
      has_shape_vec1[of 0] has_shape_vec1[of a] has_shape_vec1[of b]]
  by (simp add: vec1_def mat11_def)

lemma layer_cell_scalar_rnn: "l < k \<Longrightarrow> layer_cell (scalar_rnn k) tanh_cell l = scalar_cell"
  by (simp add: layer_cell_def scalar_rnn_def scalar_cell_def fun_eq_iff)

lemma row_zeros_vec: "l < n \<Longrightarrow> row (zeros [n, 1]) l = vec1 0"
  by (simp add: row_def zeros_def chunk_def vec1_def)

lemma cum_map_scalar_zero: "cum_map scalar_cell (zeros [1, 1]) (vec1 0) = Ok (zeros [1, 1], vec1 0)"
proof -
  have "cum_map scalar_cell (zeros [1, 1]) ((\<lambda>t. vec1 0) (0::nat))
        = Ok (\<lparr>shape = 1 # [1], data = concat (map (\<lambda>t. data (vec1 0)) [0..<1])\<rparr>, vec1 0)"
  proof (rule cum_map_run)
    show "shape (zeros [1, 1]) = 1 # [1]" by simp
    show "0 < (1::nat)" by simp
    show "\<forall>t<1. scalar_cell (row (zeros [1, 1]) t) (vec1 0) = Ok (vec1 0)"
      using row_zeros_vec[of 0 1] scalar_cell_value[of 0 0] by simp
    show "\<forall>t<1. shape (vec1 0) = [1]" by (simp add: vec1_def)
  qed
  then show ?thesis
    by (simp add: zeros_def vec1_def)
qed

section \<open>Claims about the forward pass\<close>

text \<open>
  Claim C1. With \<open>h_0\<close> omitted, \<open>forward\<close> should behave as if \<open>h_0\<close> were all
  zeros of shape \<open>(N, num_layers, H_out)\<close> with \<open>N\<close> the batch size of the input \<open>x\<close>.
  The method reads the module-level name \<open>N\<close> instead. With \<open>N = 2\<close> bound and an
  input of 3 batch rows the call returns a hidden sequence of 2 rows only (the loop over
  \<open>zip(x, h_0)\<close> stops at the shorter argument), whereas the all-zero \<open>h_0\<close> of shape
  \<open>(3, 1, 1)\<close> is refused by the reshape; with \<open>N\<close> unbound the call raises
  \<open>NameError\<close>.
\<close>

theorem forward_default_h_0_reads_global:
  "\<exists>HS HN. forward (Some 2) (scalar_rnn 1) (zeros [3, 1, 1]) None = Ok (HS, HN) \<and>
           has_shape HS [2, 1, 1] \<and> has_shape HN [1, 2, 1] \<and>
           forward (Some 2) (scalar_rnn 1) (zeros [3, 1, 1]) (Some (zeros [3, 1, 1]))
           = Error RuntimeError \<and>
           forward None (scalar_rnn 1) (zeros [3, 1, 1]) None = Error NameError"
proof -
  let ?m = "scalar_rnn 1"
  have "\<exists>hs hn HS T HN.
          (\<forall>i<2. batch_forward ?m (row (zeros [3, 1, 1]) i)
                    (row \<lparr>shape = [2, num_layers ?m, hidden_size ?m],
                          data = data (zeros [num_layers ?m, 2, hidden_size ?m])\<rparr> i)
                  = Ok (hs i, hn i)) \<and>
          forward (Some 2) ?m (zeros [3, 1, 1]) (Some (zeros [num_layers ?m, 2, hidden_size ?m]))
          = Ok (HS, HN) \<and>
          stack (map hs [0..<2]) = Ok HS \<and> stack (map hn [0..<2]) = Ok T \<and>
          einsum_ijk_jik T = Ok HN \<and>
          has_shape HS [2, 1, hidden_size ?m] \<and> has_shape HN [num_layers ?m, 2, hidden_size ?m] \<and>
          (\<forall>i<2. row HS i = hs i) \<and>
          (\<forall>l<num_layers ?m. \<forall>i<2. row (row HN l) i = row (hn i) l)"
  proof (rule forward_total)
    show "rnn_wf ?m" by (rule rnn_wf_scalar_rnn)
    show "0 < num_layers ?m" by simp
    show "0 < (1::nat)" by simp
    show "has_shape (zeros [3, 1, 1]) [3, 1, input_size ?m]"
      by (simp only: sizes_scalar_rnn has_shape_zeros)
    show "valid (zeros [num_layers ?m, 2, hidden_size ?m])" by (rule valid_zeros)
    show "numel (zeros [num_layers ?m, 2, hidden_size ?m]) = 2 * num_layers ?m * hidden_size ?m"
      by simp
    show "(2::nat) = min 3 2" by simp
    show "0 < (2::nat)" by simp
  qed
  then obtain HS HN where
    "forward (Some 2) ?m (zeros [3, 1, 1]) (Some (zeros [num_layers ?m, 2, hidden_size ?m]))
     = Ok (HS, HN)"
    "has_shape HS [2, 1, hidden_size ?m]" "has_shape HN [num_layers ?m, 2, hidden_size ?m]"
    by (elim exE conjE)
  then have 1: "forward (Some 2) ?m (zeros [3, 1, 1]) None = Ok (HS, HN)"
    and 2: "has_shape HS [2, 1, 1]" "has_shape HN [1, 2, 1]"
    by (simp_all add: forward_default_h_0)
  have 3: "forward (Some 2) ?m (zeros [3, 1, 1]) (Some (zeros [3, 1, 1])) = Error RuntimeError"
    by (rule forward_count_mismatch) simp
  have 4: "forward None ?m (zeros [3, 1, 1]) None = Error NameError"
    by (rule forward_unbound_N)
  from 1 2 3 4 show ?thesis by blast
qed

text \<open>
  Claim C2, as the code has it. An input sequence of length \<open>L = 0\<close> does not give an
  empty output: \<open>cum_map\<close> raises \<open>RuntimeError\<close> (the stack of an empty list of
  results), whatever the cell and \<open>h_0\<close> are, and \<open>forward\<close> on an input of shape
  \<open>(N, 0, ...)\<close> raises for every \<open>h_0\<close> and every binding of the module-level
  \<open>N\<close>.
\<close>

theorem empty_sequence_raises:
  assumes "shape xs = 0 # d" and "shape x = nx # 0 # d'"
  shows "cum_map f xs h = Error RuntimeError \<and> is_error (forward N m x h_0)"
  using cum_map_empty[OF assms(1)] forward_empty_sequence[OF assms(2)] by simp

theorem empty_sequence_raises_witness:
  "cum_map scalar_cell (zeros [0, 1]) (vec1 0) = Error RuntimeError \<and>
   is_error (forward (Some 2) (scalar_rnn 1) (zeros [2, 0, 1]) None)"
proof -
  have "shape (zeros [0, 1]) = 0 # [1]" "shape (zeros [2, 0, 1]) = 2 # 0 # [1]"
    by simp_all
  then show ?thesis
    by (rule empty_sequence_raises)
qed

text \<open>
  The claim as the specification states it (an empty output and the final state \<open>h_0\<close>)
  fails on an input sequence of length 0.
\<close>

theorem empty_sequence_counterexample:
  "cum_map scalar_cell (zeros [0, 1]) (vec1 7) \<noteq> Ok (zeros [0, 1], vec1 7) \<and>
   cum_map scalar_cell (zeros [0, 1]) (vec1 7) = Error RuntimeError \<and>
   is_error (forward (Some 1) (scalar_rnn 1) (zeros [1, 0, 1]) (Some (zeros [1, 1, 1])))"
proof -
  have "cum_map scalar_cell (zeros [0, 1]) (vec1 7) = Error RuntimeError"
    by (rule cum_map_empty[where d = "[1]"]) simp
  moreover have "is_error (forward (Some 1) (scalar_rnn 1) (zeros [1, 0, 1]) (Some (zeros [1, 1, 1])))"
    by (rule forward_empty_sequence[where nx = 1 and d = "[1]"]) simp
  ultimately show ?thesis by simp
qed




text \<open>
  Claim C4, as the code has it. \<open>layers_forward\<close> iterates over the rows of
  \<open>h_inits\<close> and indexes the parameter lists by the row number. It raises when
  \<open>h_inits\<close> has more rows than \<open>num_layers\<close> (an \<open>IndexError\<close>, unless an earlier
  layer has raised) and when it has no row (the stack of an empty list).
\<close>

theorem layers_forward_count_errors:
  assumes "params_per_layer m" and "shape h_inits = n # s"
    and "num_layers m < n \<or> n = 0"
  shows "is_error (layers_forward m f x h_inits)"
proof (cases "n = 0")
  case True
  then show ?thesis
    using assms(2) by (simp add: layers_forward_def iter_def stack_empty)
next
  case False
  with assms(3) have "num_layers m < 0 + length (map (row h_inits) [0..<n])"
    by simp
  then have "is_error (layers_loop m f 0 (map (row h_inits) [0..<n]) x [])"
    using assms(1) by (intro layers_loop_overrun) simp_all
  then show ?thesis
    by (simp add: layers_forward_def iter_shape[OF assms(2)] is_error_and_then)
qed

theorem layers_forward_count_errors_witness:
  "is_error (layers_forward (scalar_rnn 1) tanh_cell (zeros [3, 1]) (zeros [2, 1]))"
proof -
  have a: "params_per_layer (scalar_rnn 1)"
    using rnn_wf_scalar_rnn by (rule rnn_wf_params)
  have b: "shape (zeros [2, 1]) = 2 # [1]"
    by simp
  have c: "num_layers (scalar_rnn 1) < 2 \<or> (2::nat) = 0"
    by simp
  show ?thesis
    using a b c by (rule layers_forward_count_errors)
qed

text \<open>
  The claim as the specification states it fails when \<open>h_inits\<close> has fewer rows than
  \<open>num_layers\<close>: with one row and two layers \<open>layers_forward\<close> returns a result, the
  final state of the first layer alone.
\<close>

theorem layers_forward_count_counterexample:
  "shape (zeros [1, 1]) ! 0 \<noteq> num_layers (scalar_rnn 2) \<and>
   (\<exists>hs hn. layers_forward (scalar_rnn 2) tanh_cell (zeros [3, 1]) (zeros [1, 1]) = Ok (hs, hn) \<and>
            has_shape hs [3, 1] \<and> has_shape hn [1, 1])"
proof -
  let ?m = "scalar_rnn 2"
  have "\<exists>hs hn. layers_forward ?m tanh_cell (zeros [3, 1]) (zeros [1, 1]) = Ok (hs, hn) \<and>
                has_shape hs [3, hidden_size ?m] \<and> has_shape hn [1, hidden_size ?m]"
  proof (rule layers_forward_total)
    show "rnn_wf ?m" by (rule rnn_wf_scalar_rnn)
    show "0 < (3::nat)" "0 < (1::nat)" by simp_all
    show "1 \<le> num_layers ?m" by simp
    show "has_shape (zeros [3, 1]) [3, input_size ?m]"
      by (simp only: sizes_scalar_rnn has_shape_zeros)
    show "has_shape (zeros [1, 1]) [1, hidden_size ?m]"
      by (simp only: sizes_scalar_rnn has_shape_zeros)
  qed
  then show ?thesis
    by (simp only: sizes_scalar_rnn shape_zeros) simp
qed

text \<open>
  Claim C5. For a cell function \<open>f\<close>, an input sequence \<open>xs\<close> of \<open>L \<ge> 1\<close> rows and an
  initial hidden vector \<open>h_0\<close>, let \<open>hq 0 = h_0\<close> and \<open>hq (t + 1) = f(xs[t], hq t)\<close>
  be the states of the recurrence (the cell returns at every step, and its results are
  tensors of one shape \<open>s\<close>). Then \<open>cum_map\<close> returns the sequence
  \<open>hq 1, ..., hq L\<close> in this order, stacked along a new first axis, together with the
  final state \<open>hq L\<close>.
\<close>

theorem cum_map_scan:
  assumes "shape xs = L # d" and "1 \<le> L"
    and "hq 0 = h_0"
    and "\<forall>t<L. f (row xs t) (hq t) = Ok (hq (Suc t))"
    and "\<forall>t<L. has_shape (hq (Suc t)) s"
  shows "\<exists>out. cum_map f xs h_0 = Ok (out, hq L) \<and> has_shape out (L # s) \<and>
               (\<forall>t<L. row out t = hq (Suc t))"
proof -
  let ?res = "map (\<lambda>t. hq (Suc t)) [0..<L]"
  let ?out = "\<lparr>shape = length ?res # s, data = concat (map data ?res)\<rparr>"
  have all: "\<forall>u\<in>set ?res. has_shape u s"
    using assms(5) by simp
  have "cum_map f xs (hq 0)
        = Ok (\<lparr>shape = L # s, data = concat (map (\<lambda>t. data (hq (Suc t))) [0..<L])\<rparr>, hq L)"
    using assms(1) _ assms(4)
  proof (rule cum_map_run)
    show "0 < L" using assms(2) by simp
    show "\<forall>t<L. shape (hq (Suc t)) = s" using assms(5) by (simp add: has_shape_def)
  qed
  then have 1: "cum_map f xs h_0 = Ok (?out, hq L)"
    by (simp add: assms(3) o_def)
  have 2: "has_shape ?out (L # s)"
    using has_shape_stacked[OF all] by simp
  have 3: "row ?out t = hq (Suc t)" if "t < L" for t
    using row_stacked[OF all, of t] that by simp
  from 1 2 3 show ?thesis by blast
qed

theorem cum_map_scan_witness:
  "\<exists>out. cum_map add \<lparr>shape = [2, 1], data = [1, 1]\<rparr> (vec1 0) = Ok (out, vec1 2) \<and>
         has_shape out [2, 1] \<and> row out 0 = vec1 1 \<and> row out 1 = vec1 2"
proof -
  let ?xs = "\<lparr>shape = [2, 1], data = [1, 1]\<rparr>"
  let ?hq = "\<lambda>t. vec1 (real t)"
  have r: "row ?xs t = vec1 1" if "t < 2" for t
  proof -
    from that have "t = 0 \<or> t = 1" by auto
    then show ?thesis by (auto simp: row_def chunk_def vec1_def)
  qed
  have hs: "has_shape (vec1 a) [1]" for a
    by (simp add: has_shape_def valid_def vec1_def)
  have step: "\<forall>t<2. add (row ?xs t) (?hq t) = Ok (?hq (Suc t))"
  proof (intro allI impI)
    fix t :: nat assume "t < 2"
    then have "row ?xs t = vec1 1" by (rule r)
    moreover have "add (vec1 1) (vec1 (real t)) = Ok (vec1 (1 + real t))"
      using add_vec_ok[OF hs hs, of 1 "real t"] by (simp add: vec1_def)
    ultimately show "add (row ?xs t) (?hq t) = Ok (?hq (Suc t))"
      by simp
  qed
  have "\<exists>out. cum_map add ?xs (vec1 0) = Ok (out, ?hq 2) \<and> has_shape out [2, 1] \<and>
              (\<forall>t<2. row out t = ?hq (Suc t))"
  proof (rule cum_map_scan[where d = "[1]"])
    show "shape ?xs = [2, 1]" by simp
    show "1 \<le> (2::nat)" by simp
    show "?hq 0 = vec1 0" by simp
    show "\<forall>t<2. add (row ?xs t) (?hq t) = Ok (?hq (Suc t))" by (rule step)
    show "\<forall>t<2. has_shape (?hq (Suc t)) [1]" using hs by blast
  qed
  then obtain out where o: "cum_map add ?xs (vec1 0) = Ok (out, ?hq 2)" "has_shape out [2, 1]"
    "\<forall>t<2. row out t = ?hq (Suc t)"
    by blast
  from o(3) have "row out 0 = vec1 1" "row out 1 = vec1 2"
    by (simp_all add: numeral_2_eq_2)
  with o(1,2) show ?thesis by auto
qed

text \<open>
  Claim C6. For an input vector \<open>x\<close> of dimension \<open>D\<close>, a hidden vector \<open>h\<close> of
  dimension \<open>H\<close> and layer parameters of consistent dimensions (\<open>w_ih\<close> of shape
  \<open>(H, D)\<close>, \<open>w_hh\<close> of shape \<open>(H, H)\<close>, both biases of shape \<open>(H)\<close>),
  \<open>tanh_cell\<close> returns the vector \<open>tanh(W_ih x + W_hh h + b_ih + b_hh)\<close> of the
  specification: matrix-vector products, elementwise sums, elementwise \<open>tanh\<close>.
\<close>

theorem tanh_cell_formula:
  assumes "has_shape w_ih [H, D]" and "has_shape w_hh [H, H]"
    and "has_shape b_ih [H]" and "has_shape b_hh [H]"
    and "has_shape x [D]" and "has_shape h [H]"
  shows "tanh_cell x h w_ih w_hh b_ih b_hh =
         Ok \<lparr>shape = [H],
             data = tanh_cell_spec (matrix_of w_ih) (matrix_of w_hh) (data b_ih) (data b_hh)
                                   (data x) (data h)\<rparr>"
proof -
  have lx: "length (data x) = D" and lh: "length (data h) = H"
    using assms(5,6) by (simp_all add: has_shape_def valid_def)
  have "tanh_cell_spec (matrix_of w_ih) (matrix_of w_hh) (data b_ih) (data b_hh) (data x) (data h)
        = map (\<lambda>i. tanh ((\<Sum>j<D. data w_ih ! (i * D + j) * data x ! j) +
                         (\<Sum>j<H. data w_hh ! (i * H + j) * data h ! j) +
                         data b_ih ! i + data b_hh ! i)) [0..<H]"
    by (simp add: tanh_cell_spec_def vec_add_def mat_vec_matrix_of[OF assms(1) lx]
        mat_vec_matrix_of[OF assms(2) lh])
  then show ?thesis
    using tanh_cell_value[OF assms] by simp
qed

theorem tanh_cell_formula_witness:
  "tanh_cell (vec2 1 0) (vec2 0 0) W_id2 W_zero2 (vec2 0 0) (vec2 0 0) = Ok (vec2 (tanh 1) 0)"
proof -
  have h: "has_shape W_id2 [2, 2]" "has_shape W_zero2 [2, 2]" "has_shape (vec2 0 0) [2]"
    "has_shape (vec2 1 0) [2]"
    by (simp_all add: has_shape_def valid_def W_id2_def W_zero2_def vec2_def)
  have m: "matrix_of W_id2 = [[1, 0], [0, 1]]" "matrix_of W_zero2 = [[0, 0], [0, 0]]"
    by (simp_all add: matrix_of_def W_id2_def W_zero2_def chunk_def upt_rec)
  have "tanh_cell_spec [[1, 0], [0, 1]] [[0, 0], [0, 0]] [0, 0] [0, 0] [1, 0] [0, 0]
        = [tanh 1, 0]"
    by (simp add: tanh_cell_spec_def vec_add_def mat_vec_def upt_rec lessThan_Suc
        numeral_2_eq_2)
  then show ?thesis
    using tanh_cell_formula[OF h(1) h(2) h(3) h(3) h(4) h(3)] m
    by (simp add: vec2_def)
qed

text \<open>
  Claim C7. \<open>layers_forward\<close> on an RNN with one parameter tensor per layer and an
  \<open>h_inits\<close> of \<open>num_layers \<ge> 1\<close> rows: let \<open>sq 0\<close> be the input sequence and let the
  scan of layer \<open>l\<close> (the cell bound to the parameters of layer \<open>l\<close>, started from row
  \<open>l\<close> of \<open>h_inits\<close>) map \<open>sq l\<close> to the output sequence \<open>sq (l + 1)\<close> and the
  final state \<open>fin l\<close>, for \<open>l = 0, ..., num_layers - 1\<close>. Then the result is the output
  sequence \<open>sq num_layers\<close> of the last layer together with the final states
  \<open>fin 0, ..., fin (num_layers - 1)\<close> stacked in layer order.
\<close>

theorem layers_forward_chain:
  assumes "params_per_layer m" and "shape h_inits = num_layers m # s0" and "1 \<le> num_layers m"
    and "sq 0 = x"
    and "\<forall>l<num_layers m.
           cum_map (layer_cell m f l) (sq l) (row h_inits l) = Ok (sq (Suc l), fin l)"
    and "\<forall>l<num_layers m. has_shape (fin l) s"
  shows "\<exists>hn. layers_forward m f x h_inits = Ok (sq (num_layers m), hn) \<and>
              has_shape hn (num_layers m # s) \<and> (\<forall>l<num_layers m. row hn l = fin l)"
proof -
  let ?n = "num_layers m"
  let ?res = "map fin [0..<?n]"
  let ?hn = "\<lparr>shape = length ?res # s, data = concat (map data ?res)\<rparr>"
  have all: "\<forall>u\<in>set ?res. has_shape u s"
    using assms(6) by simp
  have "layers_forward m f (sq 0) h_inits
        = Ok (sq ?n, \<lparr>shape = ?n # s, data = concat (map (\<lambda>l. data (fin l)) [0..<?n])\<rparr>)"
    using assms(1,2) _ _ assms(5)
  proof (rule layers_forward_run)
    show "0 < ?n" using assms(3) by simp
    show "?n \<le> ?n" by simp
    show "\<forall>l<?n. shape (fin l) = s" using assms(6) by (simp add: has_shape_def)
  qed
  then have 1: "layers_forward m f x h_inits = Ok (sq ?n, ?hn)"
    by (simp add: assms(4) o_def)
  have 2: "has_shape ?hn (?n # s)"
    using has_shape_stacked[OF all] by simp
  have 3: "row ?hn l = fin l" if "l < ?n" for l
    using row_stacked[OF all, of l] that by simp
  from 1 2 3 show ?thesis by blast
qed

theorem layers_forward_chain_witness:
  "\<exists>hn. layers_forward (scalar_rnn 2) tanh_cell (zeros [1, 1]) (zeros [2, 1])
         = Ok (zeros [1, 1], hn) \<and>
        has_shape hn [2, 1] \<and> row hn 0 = vec1 0 \<and> row hn 1 = vec1 0"
proof -
  let ?m = "scalar_rnn 2"
  let ?sq = "\<lambda>l::nat. zeros [1, 1]"
  let ?fin = "\<lambda>l::nat. vec1 0"
  have a: "params_per_layer ?m"
    using rnn_wf_scalar_rnn by (rule rnn_wf_params)
  have b: "shape (zeros [2, 1]) = num_layers ?m # [1]"
    by simp
  have c: "1 \<le> num_layers ?m"
    by simp
  have d: "\<forall>l<num_layers ?m. cum_map (layer_cell ?m tanh_cell l) (?sq l) (row (zeros [2, 1]) l)
                               = Ok (?sq (Suc l), ?fin l)"
  proof (intro allI impI)
    fix l assume "l < num_layers ?m"
    then have "l < 2" by simp
    then show "cum_map (layer_cell ?m tanh_cell l) (?sq l) (row (zeros [2, 1]) l)
               = Ok (?sq (Suc l), ?fin l)"
      by (simp only: layer_cell_scalar_rnn row_zeros_vec cum_map_scalar_zero)
  qed
  have e: "\<forall>l<num_layers ?m. has_shape (?fin l) [1]"
    using has_shape_vec1 by blast
  from layers_forward_chain[OF a b c refl d e]
  obtain hn where hn: "layers_forward ?m tanh_cell (zeros [1, 1]) (zeros [2, 1]) = Ok (zeros [1, 1], hn)"
    "has_shape hn (num_layers ?m # [1])" "\<forall>l<num_layers ?m. row hn l = vec1 0"
    by (elim exE conjE)
  from hn(3) have "row hn 0 = vec1 0" "row hn 1 = vec1 0"
    by simp_all
  with hn(1,2) show ?thesis by simp
qed

text \<open>
  Claim C8. For valid \<open>x\<close> of shape \<open>(N, L, H_in)\<close> and \<open>h_0\<close> of shape
  \<open>(N, num_layers, H_out)\<close>, \<open>forward\<close> should return a hidden sequence of shape
  \<open>(N, L, H_out)\<close> and a final stack of shape \<open>(num_layers, N, H_out)\<close>. The method
  reshapes \<open>h_0\<close> with the module-level name \<open>N\<close>, not with the batch size of \<open>x\<close>:
  for the valid pair \<open>x\<close> of shape \<open>(2, 3, 1)\<close> and \<open>h_0\<close> of shape \<open>(2, 1, 1)\<close> the
  call raises \<open>RuntimeError\<close> when \<open>N\<close> is bound to 3 and \<open>NameError\<close> when \<open>N\<close> is
  not bound; it returns the two shapes only when \<open>N\<close> is bound to 2.
\<close>

theorem forward_shapes_failing_input:
  "has_shape (zeros [2, 3, 1]) [2, 3, input_size (scalar_rnn 1)] \<and>
   has_shape (zeros [2, 1, 1]) [2, num_layers (scalar_rnn 1), hidden_size (scalar_rnn 1)] \<and>
   forward (Some 3) (scalar_rnn 1) (zeros [2, 3, 1]) (Some (zeros [2, 1, 1])) = Error RuntimeError \<and>
   forward None (scalar_rnn 1) (zeros [2, 3, 1]) (Some (zeros [2, 1, 1])) = Error NameError \<and>
   (\<exists>HS HN. forward (Some 2) (scalar_rnn 1) (zeros [2, 3, 1]) (Some (zeros [2, 1, 1])) = Ok (HS, HN) \<and>
            has_shape HS [2, 3, 1] \<and> has_shape HN [1, 2, 1])"
proof -
  let ?m = "scalar_rnn 1" and ?x = "zeros [2, 3, 1]" and ?h = "zeros [2, 1, 1]"
  have a: "rnn_wf ?m"
    by (rule rnn_wf_scalar_rnn)
  have b: "1 \<le> num_layers ?m"
    by simp
  have c: "has_shape ?x [2, 3, input_size ?m]"
    by (simp only: sizes_scalar_rnn has_shape_zeros)
  have d: "has_shape ?h [2, num_layers ?m, hidden_size ?m]"
    by (simp only: sizes_scalar_rnn has_shape_zeros)
  have e: "1 \<le> (2::nat)" "1 \<le> (3::nat)"
    by simp_all
  have 1: "forward (Some 3) ?m ?x (Some ?h) = Error RuntimeError"
    by (rule forward_count_mismatch) simp
  have 2: "forward None ?m ?x (Some ?h) = Error NameError"
    by (rule forward_unbound_N)
  from forward_shapes_matching_N[OF a b c e(1) e(2) d]
  obtain HS HN where "forward (Some 2) ?m ?x (Some ?h) = Ok (HS, HN)"
    "has_shape HS [2, 3, hidden_size ?m]" "has_shape HN [num_layers ?m, 2, hidden_size ?m]"
    by (elim exE conjE)
  then have 3: "\<exists>HS HN. forward (Some 2) ?m ?x (Some ?h) = Ok (HS, HN) \<and>
                        has_shape HS [2, 3, 1] \<and> has_shape HN [1, 2, 1]"
    by (simp only: sizes_scalar_rnn) blast
  from c d 1 2 3 show ?thesis by blast
qed

text \<open>
  Claim C9. One call of \<open>forward\<close> on a batch of \<open>N\<close> rows should agree row for row
  with \<open>N\<close> calls on the batches of size 1. Under one binding of the module-level name
  \<open>N\<close> the two sides cannot both be run: with \<open>N = 2\<close> the call on the batch of 2 rows
  returns and each call on a single row, with its row of \<open>h_0\<close>, raises
  \<open>RuntimeError\<close> at the reshape; with \<open>N = 1\<close> the call on the whole batch raises it.
\<close>

theorem batch_independence_failing_input:
  "(\<exists>HS HN. forward (Some 2) (scalar_rnn 1) (zeros [2, 3, 1]) (Some (zeros [2, 1, 1])) = Ok (HS, HN)) \<and>
   forward (Some 2) (scalar_rnn 1) (batch_of_one (zeros [2, 3, 1]) 0)
     (Some (batch_of_one (zeros [2, 1, 1]) 0)) = Error RuntimeError \<and>
   forward (Some 2) (scalar_rnn 1) (batch_of_one (zeros [2, 3, 1]) 1)
     (Some (batch_of_one (zeros [2, 1, 1]) 1)) = Error RuntimeError \<and>
   forward (Some 1) (scalar_rnn 1) (zeros [2, 3, 1]) (Some (zeros [2, 1, 1])) = Error RuntimeError"
proof -
  let ?m = "scalar_rnn 1" and ?x = "zeros [2, 3, 1]" and ?h = "zeros [2, 1, 1]"
  have a: "rnn_wf ?m"
    by (rule rnn_wf_scalar_rnn)
  have b: "1 \<le> num_layers ?m"
    by simp
  have c: "has_shape ?x [2, 3, input_size ?m]"
    by (simp only: sizes_scalar_rnn has_shape_zeros)
  have d: "has_shape ?h [2, num_layers ?m, hidden_size ?m]"
    by (simp only: sizes_scalar_rnn has_shape_zeros)
  have e: "1 \<le> (2::nat)" "1 \<le> (3::nat)"
    by simp_all
  from forward_shapes_matching_N[OF a b c e(1) e(2) d]
  have 1: "\<exists>HS HN. forward (Some 2) ?m ?x (Some ?h) = Ok (HS, HN)"
    by blast
  have n1: "numel (batch_of_one ?h i) \<noteq> 2 * num_layers ?m * hidden_size ?m" for i
    by (simp add: numel_def batch_of_one_def)
  have 2: "forward (Some 2) ?m (batch_of_one ?x i) (Some (batch_of_one ?h i)) = Error RuntimeError"
    for i
    using n1 by (rule forward_count_mismatch)
  have 3: "forward (Some 1) ?m ?x (Some ?h) = Error RuntimeError"
    by (rule forward_count_mismatch) simp
  from 1 2 3 show ?thesis by blast
qed

text \<open>
  Claim C10. Every valid \<open>h_0\<close> that holds \<open>N * num_layers * hidden_size\<close> elements is
  accepted, whatever its shape, and is read in row-major order: for a well-formed RNN of
  at least one layer and an input \<open>x\<close> of shape \<open>(N, L, H_in)\<close> with \<open>N \<ge> 1\<close>,
  \<open>L \<ge> 1\<close> and \<open>N\<close> the module-level batch size, the reshape gives the tensor \<open>h'\<close> of
  shape \<open>(N, num_layers, hidden_size)\<close> with the elements of \<open>h_0\<close> in their order, so
  that the initial state of batch row \<open>i\<close> and layer \<open>l\<close> is block \<open>i * num_layers + l\<close>
  of the elements of \<open>h_0\<close>; \<open>forward\<close> returns, and row \<open>i\<close> of its results is the
  result of \<open>batch_forward\<close> on row \<open>i\<close> of \<open>x\<close> and row \<open>i\<close> of \<open>h'\<close>. An \<open>h_0\<close>
  laid out as \<open>(num_layers, N, H_out)\<close> is such a tensor: its element \<open>[l][i]\<close> is not
  the initial state of batch row \<open>i\<close> and layer \<open>l\<close>.
\<close>

theorem forward_reshapes_h_0:
  assumes "rnn_wf m" and "1 \<le> num_layers m"
    and "has_shape x [n, L, input_size m]" and "1 \<le> n" and "1 \<le> L"
    and "valid h_0" and "numel h_0 = n * num_layers m * hidden_size m"
  shows "\<exists>h' hs hn HS HN.
           h' = \<lparr>shape = [n, num_layers m, hidden_size m], data = data h_0\<rparr> \<and>
           reshape h_0 [n, num_layers m, hidden_size m] = Ok h' \<and>
           (\<forall>i<n. row h' i = \<lparr>shape = [num_layers m, hidden_size m],
                                data = chunk (data h_0) (num_layers m * hidden_size m) i\<rparr>) \<and>
           (\<forall>i<n. \<forall>l<num_layers m.
              row (row h' i) l
              = \<lparr>shape = [hidden_size m],
                 data = chunk (data h_0) (hidden_size m) (i * num_layers m + l)\<rparr>) \<and>
           (\<forall>i<n. batch_forward m (row x i) (row h' i) = Ok (hs i, hn i)) \<and>
           forward (Some n) m x (Some h_0) = Ok (HS, HN) \<and>
           forward (Some n) m x (Some h') = Ok (HS, HN) \<and>
           has_shape HS [n, L, hidden_size m] \<and>
           has_shape HN [num_layers m, n, hidden_size m] \<and>
           (\<forall>i<n. row HS i = hs i) \<and>
           (\<forall>l<num_layers m. \<forall>i<n. row (row HN l) i = row (hn i) l)"
proof -
  let ?nl = "num_layers m" and ?H = "hidden_size m"
  let ?h = "\<lparr>shape = [n, ?nl, ?H], data = data h_0\<rparr>"
  have 1: "reshape h_0 [n, ?nl, ?H] = Ok ?h"
    using assms(7) by (simp add: reshape_def mult.assoc)
  have 2: "row ?h i = \<lparr>shape = [?nl, ?H], data = chunk (data h_0) (?nl * ?H) i\<rparr>" for i
    by (simp add: row_def)
  have 3: "row (row ?h i) l = \<lparr>shape = [?H], data = chunk (data h_0) ?H (i * ?nl + l)\<rparr>"
    if "l < ?nl" for i l
    using that by (simp add: row_def chunk_chunk)
  have "\<exists>hs hn HS T HN.
          (\<forall>i<n. batch_forward m (row x i) (row ?h i) = Ok (hs i, hn i)) \<and>
          forward (Some n) m x (Some h_0) = Ok (HS, HN) \<and>
          stack (map hs [0..<n]) = Ok HS \<and> stack (map hn [0..<n]) = Ok T \<and>
          einsum_ijk_jik T = Ok HN \<and>
          has_shape HS [n, L, ?H] \<and> has_shape HN [?nl, n, ?H] \<and>
          (\<forall>i<n. row HS i = hs i) \<and>
          (\<forall>l<?nl. \<forall>i<n. row (row HN l) i = row (hn i) l)"
    using assms(1) _ _ assms(3,6,7)
  proof (rule forward_total)
    show "0 < ?nl" using assms(2) by simp
    show "0 < L" using assms(5) by simp
    show "n = min n n" by simp
    show "0 < n" using assms(4) by simp
  qed
  then obtain hs hn HS HN where r:
    "\<forall>i<n. batch_forward m (row x i) (row ?h i) = Ok (hs i, hn i)"
    "forward (Some n) m x (Some h_0) = Ok (HS, HN)"
    "has_shape HS [n, L, ?H]" "has_shape HN [?nl, n, ?H]"
    "\<forall>i<n. row HS i = hs i"
    "\<forall>l<?nl. \<forall>i<n. row (row HN l) i = row (hn i) l"
    apply (elim exE conjE)
    subgoal for hs hn HS T HN by (rule that[of hs hn HS HN])
    done
  have 4: "forward (Some n) m x (Some ?h) = Ok (HS, HN)"
    using forward_reshape_invariant[OF assms(7), of x] r(2) by simp
  have "?h = ?h \<and> reshape h_0 [n, ?nl, ?H] = Ok ?h \<and>
        (\<forall>i<n. row ?h i = \<lparr>shape = [?nl, ?H], data = chunk (data h_0) (?nl * ?H) i\<rparr>) \<and>
        (\<forall>i<n. \<forall>l<?nl. row (row ?h i) l
                          = \<lparr>shape = [?H], data = chunk (data h_0) ?H (i * ?nl + l)\<rparr>) \<and>
        (\<forall>i<n. batch_forward m (row x i) (row ?h i) = Ok (hs i, hn i)) \<and>
        forward (Some n) m x (Some h_0) = Ok (HS, HN) \<and>
        forward (Some n) m x (Some ?h) = Ok (HS, HN) \<and>
        has_shape HS [n, L, ?H] \<and> has_shape HN [?nl, n, ?H] \<and>
        (\<forall>i<n. row HS i = hs i) \<and>
        (\<forall>l<?nl. \<forall>i<n. row (row HN l) i = row (hn i) l)"
    using 1 2 3 4 r by blast
  then show ?thesis by blast
qed

theorem forward_reshapes_h_0_witness:
  "(\<exists>h' hs hn HS HN.
      h' = \<lparr>shape = [3, 2, 1], data = data h_0_layers_first\<rparr> \<and>
      reshape h_0_layers_first [3, 2, 1] = Ok h' \<and>
      (\<forall>i<3. row h' i = \<lparr>shape = [2, 1], data = chunk (data h_0_layers_first) (2 * 1) i\<rparr>) \<and>
      (\<forall>i<3. \<forall>l<2. row (row h' i) l
                      = \<lparr>shape = [1], data = chunk (data h_0_layers_first) 1 (i * 2 + l)\<rparr>) \<and>
      (\<forall>i<3. batch_forward (scalar_rnn 2) (row (zeros [3, 4, 1]) i) (row h' i) = Ok (hs i, hn i)) \<and>
      forward (Some 3) (scalar_rnn 2) (zeros [3, 4, 1]) (Some h_0_layers_first) = Ok (HS, HN) \<and>
      forward (Some 3) (scalar_rnn 2) (zeros [3, 4, 1]) (Some h') = Ok (HS, HN) \<and>
      has_shape HS [3, 4, 1] \<and> has_shape HN [2, 3, 1] \<and>
      (\<forall>i<3. row HS i = hs i) \<and>
      (\<forall>l<2. \<forall>i<3. row (row HN l) i = row (hn i) l)) \<and>
   row (row \<lparr>shape = [3, 2, 1], data = data h_0_layers_first\<rparr> 0) 1 = vec1 2 \<and>
   row (row h_0_layers_first 1) 0 = vec1 4"
proof -
  have a: "rnn_wf (scalar_rnn 2)"
    by (rule rnn_wf_scalar_rnn)
  have b: "1 \<le> num_layers (scalar_rnn 2)"
    by simp
  have c: "has_shape (zeros [3, 4, 1]) [3, 4, input_size (scalar_rnn 2)]"
    by (simp only: sizes_scalar_rnn has_shape_zeros)
  have d: "valid h_0_layers_first"
    by (simp add: valid_def h_0_layers_first_def)
  have e: "numel h_0_layers_first = 3 * num_layers (scalar_rnn 2) * hidden_size (scalar_rnn 2)"
    by (simp add: numel_def h_0_layers_first_def)
  have f: "1 \<le> (3::nat)" "1 \<le> (4::nat)"
    by simp_all
  have g: "row (row \<lparr>shape = [3, 2, 1], data = data h_0_layers_first\<rparr> 0) 1 = vec1 2"
    "row (row h_0_layers_first 1) 0 = vec1 4"
    by (simp_all add: row_def chunk_def h_0_layers_first_def vec1_def)
  show ?thesis
    using forward_reshapes_h_0[OF a b c f(1) f(2) d e] g
    by (simp only: sizes_scalar_rnn simp_thms)
qed

end
